theory Spec2Isabelle
  imports Main "HOL-Library.AList" "HOL-Library.Char_ord" "HOL-Library.List_Lexorder"
    "HOL-Library.Sublist" "HOL-Library.Multiset"
begin

section \<open>The verify-owners plugin of prow\<close>

text \<open>
  The plugin lives in package \<open>verifyowners\<close> (the second file of
  \<open>src/prow/plugins/cherrypick/cherrypick-unapproved.go\<close>). Its entry point
  \<open>handle\<close> talks to GitHub, to a git checkout, to the file system and to an HTTP
  server. Every such call is a field of the record \<open>world\<close> giving the call's
  result, and \<open>handle\<close> returns, with its Go result, the list of calls it made in
  order. A Go \<open>error\<close> is its message; a result \<open>(x, err)\<close> whose \<open>x\<close> is only
  read when \<open>err\<close> is nil is a sum with \<open>Inl\<close> for the error.
\<close>

subsection \<open>Go's path/filepath, for slash-separated paths\<close>

fun splitOn :: "char \<Rightarrow> string \<Rightarrow> string list" where
  "splitOn s [] = [[]]"
| "splitOn s (c # cs) =
     (if c = s then [] # splitOn s cs
      else (case splitOn s cs of [] \<Rightarrow> [[c]] | x # xs \<Rightarrow> (c # x) # xs))"

fun joinWith :: "string \<Rightarrow> string list \<Rightarrow> string" where
  "joinWith sep [] = []"
| "joinWith sep [x] = x"
| "joinWith sep (x # y # ys) = x @ sep @ joinWith sep (y # ys)"

text \<open>
  One element of \<open>filepath.Clean\<close>'s scan; \<open>out\<close> holds the elements kept so far,
  the last one first. An empty element and \<open>.\<close> are dropped; \<open>..\<close> removes the
  element before it, is dropped at the root of a rooted path, and is kept otherwise.
\<close>

definition cleanStep :: "bool \<Rightarrow> string list \<Rightarrow> string \<Rightarrow> string list" where
  "cleanStep rooted out e =
     (if e = [] \<or> e = ''.'' then out
      else if e = ''..'' then
        (case out of
           [] \<Rightarrow> if rooted then [] else [''..'']
         | t # ts \<Rightarrow> if t = ''..'' then ''..'' # out else ts)
      else e # out)"

definition Clean :: "string \<Rightarrow> string" where
  "Clean path =
     (let rooted = (take 1 path = ''/'');
          out = rev (foldl (cleanStep rooted) [] (splitOn (CHR ''/'') path));
          s = (if rooted then ''/'' else []) @ joinWith ''/'' out
      in if s = [] then ''.'' else s)"

definition Base :: "string \<Rightarrow> string" where
  "Base path =
     (if path = [] then ''.''
      else
        let p = rev (dropWhile (\<lambda>c. c = CHR ''/'') (rev path));
            e = rev (takeWhile (\<lambda>c. c \<noteq> CHR ''/'') (rev p))
        in if e = [] then ''/'' else e)"

definition Dir :: "string \<Rightarrow> string" where
  "Dir path = Clean (rev (dropWhile (\<lambda>c. c \<noteq> CHR ''/'') (rev path)))"

definition Join :: "string list \<Rightarrow> string" where
  "Join elem =
     (case dropWhile (\<lambda>e. e = []) elem of
        [] \<Rightarrow> []
      | es \<Rightarrow> Clean (joinWith ''/'' es))"

subsection \<open>regexp, strconv and fmt\<close>

definition isDigit :: "char \<Rightarrow> bool" where
  "isDigit c = (c \<in> set ''0123456789'')"

text \<open>
  \<open>lineNumberRe.FindStringSubmatch\<close> for the expression \<open>line (\d+)\<close>: the leftmost
  place where \<open>line \<close> is followed by a digit, with the longest run of digits; the
  result holds the whole match and the group, or is empty.
\<close>

fun FindStringSubmatch :: "string \<Rightarrow> string list" where
  "FindStringSubmatch [] = []"
| "FindStringSubmatch (c # cs) =
     (let ds = takeWhile isDigit (drop 5 (c # cs))
      in if take 5 (c # cs) = ''line '' \<and> ds \<noteq> [] then [''line '' @ ds, ds]
         else FindStringSubmatch cs)"

definition digitVal :: "char \<Rightarrow> int" where
  "digitVal c = int (of_char c) - 48"

text \<open>
  \<open>strconv.Atoi\<close> on a string of digits, its error dropped as the plugin drops it: a
  number beyond the 64-bit \<open>int\<close> comes back as the largest \<open>int\<close>.
\<close>

definition Atoi :: "string \<Rightarrow> int" where
  "Atoi ds = min (foldl (\<lambda>a c. 10 * a + digitVal c) 0 ds) (2 ^ 63 - 1)"

definition digitChar :: "nat \<Rightarrow> char" where
  "digitChar d = char_of (48 + d)"

fun showNat :: "nat \<Rightarrow> string" where
  "showNat n = (if n < 10 then [digitChar n] else showNat (n div 10) @ [digitChar (n mod 10)])"

declare showNat.simps [simp del]

text \<open>\<open>%s\<close> of a slice of strings.\<close>

definition showStrings :: "string list \<Rightarrow> string" where
  "showStrings xs = ''['' @ joinWith '' '' xs @ '']''"

subsection \<open>Data\<close>

record PullRequestChange =
  Filename :: string
  Patch :: string

record PullRequestEvent =
  Number :: int
  Repo_Owner_Login :: string
  Repo_Name :: string
  Repo_FullName :: string
  PullRequest_Body :: string
  PullRequest_HTMLURL :: string
  PullRequest_User_Login :: string
  PullRequest_Head_SHA :: string

record messageWithLine =
  line :: int
  message :: string

record DraftReviewComment =
  Path :: string
  Position :: int
  Body :: string

datatype ReviewAction = Approve | RequestChanges | Comment

record DraftReview =
  CommitSHA :: string
  ReviewBody :: string
  Action :: ReviewAction
  Comments :: "DraftReviewComment list"

text \<open>
  The role lists of a parsed OWNERS file. A \<open>repoowners.SimpleConfig\<close> holds one
  \<open>Config\<close>; a \<open>repoowners.FullConfig\<close> holds one per path filter. The Go map of
  filters is the list of its entries in the order the loop over it meets them.
\<close>

record Config =
  Approvers :: "string list"
  Reviewers :: "string list"
  RequiredReviewers :: "string list"
  Labels :: "string list"

type_synonym SimpleConfig = Config

type_synonym FullConfig = "(string \<times> Config) list"

text \<open>
  A Go map with string keys is an association list read with \<open>map_of\<close> and written
  with \<open>AList.update\<close>; a \<open>sets.String\<close> is a set of strings. The member set of an
  alias, which a parser built, is the list of its elements.
\<close>

type_synonym RepoAliases = "(string \<times> string list) list"

text \<open>The zero value of \<open>org.Config\<close>, of which the plugin reads \<open>Members\<close>.\<close>

record org_Config =
  Members :: "string list"

text \<open>
  The calls a run makes on its collaborators: the GitHub client, the git client and
  its checkout, the file system, HTTP, the logger, and the comment pruner of the
  sibling plugins.
\<close>

datatype call =
    GetPullRequestChanges string string int
  | Clone string
  | CheckoutPullRequest int
  | CleanRepo
  | ReadFile string
  | HttpGet string
  | AddLabel string string int string
  | RemoveLabel string string int string
  | CreateReview string string int DraftReview
  | CreateComment string string int string
  | PruneComments
  | LogError string string
  | LogDebug string

text \<open>The calls that change the pull request: its labels, reviews and comments.\<close>

fun isNotification :: "call \<Rightarrow> bool" where
  "isNotification (AddLabel org repo n l) = True"
| "isNotification (RemoveLabel org repo n l) = True"
| "isNotification (CreateReview org repo n r) = True"
| "isNotification (CreateComment org repo n body) = True"
| "isNotification PruneComments = True"
| "isNotification other = False"


record world =
  ghc_GetPullRequestChanges :: "string \<Rightarrow> string \<Rightarrow> int \<Rightarrow> string + PullRequestChange list"
  ghc_AddLabel :: "string \<Rightarrow> string \<Rightarrow> int \<Rightarrow> string \<Rightarrow> string option"
  ghc_RemoveLabel :: "string \<Rightarrow> string \<Rightarrow> int \<Rightarrow> string \<Rightarrow> string option"
  ghc_CreateReview :: "string \<Rightarrow> string \<Rightarrow> int \<Rightarrow> DraftReview \<Rightarrow> string option"
  gc_Clone :: "string \<Rightarrow> string + string"
  r_CheckoutPullRequest :: "int \<Rightarrow> string option"
  r_Clean :: "string option"
  ioutil_ReadFile :: "string \<Rightarrow> string + string"
  repoowners_ParseAliasesConfig :: "string \<Rightarrow> RepoAliases \<times> string option"
  repoowners_ParseSimpleConfig :: "string \<Rightarrow> string + SimpleConfig"
  repoowners_ParseFullConfig :: "string \<Rightarrow> string + FullConfig"
  golint_AddedLines :: "string \<Rightarrow> string + (int \<rightharpoonup> int)"
  http_Get :: "string \<Rightarrow> string + (string + string)"
  yaml_Unmarshal :: "string \<Rightarrow> org_Config \<Rightarrow> string option"
  plugins_FormatResponseRaw :: "string \<Rightarrow> string \<Rightarrow> string \<Rightarrow> string \<Rightarrow> string"
  labels_InvalidOwners :: string
  range_wrongOwnersFiles ::
    "(string \<times> messageWithLine) list \<Rightarrow> (string \<times> messageWithLine) list"

text \<open>
  A statement of \<open>handle\<close> either leaves the function with its result (\<open>Return\<close>,
  \<open>None\<close> for nil) or goes on with the local variables (\<open>Next\<close>).
\<close>

datatype 'a step = Return "string option" | Next 'a

text \<open>The local variables of \<open>handle\<close> that outlive one statement.\<close>

record vars =
  wrongOwnersFiles :: "(string \<times> messageWithLine) list"
  ownersAliasesFileError :: messageWithLine
  wrongOwnersAliasesFilePresent :: bool
  members :: "string set"
  nonMembers :: "string set"
  repoAliases :: RepoAliases

definition ownersFileName :: string where
  "ownersFileName = ''OWNERS''"

definition ownersAliasesFileName :: string where
  "ownersAliasesFileName = ''OWNERS_ALIASES''"

definition initialVars :: vars where
  "initialVars =
     \<lparr>wrongOwnersFiles = [],
      ownersAliasesFileError = \<lparr>line = 0, message = []\<rparr>,
      wrongOwnersAliasesFilePresent = False,
      members = {},
      nonMembers = {},
      repoAliases = []\<rparr>"

subsection \<open>Helpers of package repoowners and of sets.String\<close>

text \<open>
  Modelled from the spec: \<open>SimpleConfig.Empty\<close> is not in the sources. Section 4.2:
  an empty declaration is one whose four role sets are all of length zero.
\<close>

definition Empty :: "SimpleConfig \<Rightarrow> bool" where
  "Empty s = (Approvers s = [] \<and> Reviewers s = [] \<and> RequiredReviewers s = [] \<and> Labels s = [])"

text \<open>
  Modelled from the spec: \<open>RepoAliases.ExpandAllAliases\<close> is not in the sources.
  Section 4.6: all alias-expanded users, the union of the member sets of every alias.
\<close>

definition ExpandAllAliases :: "RepoAliases \<Rightarrow> string set" where
  "ExpandAllAliases a =
     \<Union> ((\<lambda>k. case map_of a k of None \<Rightarrow> {} | Some us \<Rightarrow> set us) ` fst ` set a)"

definition HasAny :: "string set \<Rightarrow> string list \<Rightarrow> bool" where
  "HasAny s items = (\<exists>item \<in> set items. item \<in> s)"

subsection \<open>getMembersForOrg and getNonMembersFromLists\<close>

text \<open>
  \<open>getMembersForOrg\<close> hands \<open>yaml.Unmarshal\<close> the struct \<open>config\<close> itself, not a
  pointer to it: the callee works on a copy, so the call shows in the function only
  through the error it returns, and \<open>config.Members\<close> is read from the zero value.
\<close>

definition getMembersForOrg :: "world \<Rightarrow> string \<Rightarrow> (string set \<times> string option) \<times> call list" where
  "getMembersForOrg w orgName =
     (let url = ''https://raw.githubusercontent.com/kubernetes/org/master/config/'' @ orgName
                 @ ''/org.yaml''
      in case http_Get w url of
           Inl err \<Rightarrow> (({}, Some err), [HttpGet url])
         | Inr body \<Rightarrow>
             (case body of
                Inl err \<Rightarrow>
                  (({}, Some (''unable to read the content at '' @ url @ '': '' @ err)),
                   [HttpGet url])
              | Inr data \<Rightarrow>
                  (let config = \<lparr>Members = []\<rparr>
                   in case yaml_Unmarshal w data config of
                        Some err \<Rightarrow>
                          (({}, Some (''failed to unmarshal org config: '' @ err)), [HttpGet url])
                      | None \<Rightarrow> ((set (Members config), None), [HttpGet url]))))"

text \<open>
  The loop of \<open>getNonMembersFromLists\<close>: each list is united into \<open>totalUsers\<close>, then
  every login of the list that is a key of the alias table is deleted from it.
\<close>

fun totalUsersOf :: "RepoAliases \<Rightarrow> string set \<Rightarrow> string list list \<Rightarrow> string set" where
  "totalUsersOf aliases totalUsers [] = totalUsers"
| "totalUsersOf aliases totalUsers (list # rest) =
     totalUsersOf aliases
       (foldl (\<lambda>t login. if map_of aliases login \<noteq> None then t - {login} else t)
          (totalUsers \<union> set list) list)
       rest"

definition getNonMembersFromLists ::
  "RepoAliases \<Rightarrow> string set \<Rightarrow> string list list \<Rightarrow> string set" where
  "getNonMembersFromLists aliases mem roleLists = totalUsersOf aliases {} roleLists - mem"

subsection \<open>The statements of handle\<close>

text \<open>
  Lines 270-283 and 331-344: the line a parse error is bound to. It is 1 unless the
  error text names a line and \<open>golint.AddedLines\<close> maps that line into the patch.
\<close>

definition patchLine :: "world \<Rightarrow> string \<Rightarrow> string \<Rightarrow> string \<Rightarrow> int \<times> call list" where
  "patchLine w errText patch fileName =
     (let lineNumberMatches = FindStringSubmatch errText
      in if length lineNumberMatches > 1 then
           (let absoluteLineNumber = Atoi (lineNumberMatches ! 1)
            in case golint_AddedLines w patch of
                 Inl err \<Rightarrow>
                   (1, [LogError err
                          (''Failed to compute added lines in '' @ fileName @ '': '' @ err)])
               | Inr al \<Rightarrow>
                   (case al absoluteLineNumber of Some val \<Rightarrow> (val, []) | None \<Rightarrow> (1, [])))
         else (1, []))"

text \<open>Lines 291-296 and 383-388: the roster is fetched when \<open>members\<close> is empty.\<close>

definition ensureMembers :: "world \<Rightarrow> string \<Rightarrow> vars \<Rightarrow> vars step \<times> call list" where
  "ensureMembers w org v =
     (if members v = {} then
        (case getMembersForOrg w org of
           ((m, Some err), tr) \<Rightarrow>
             (Return (Some (''failed to get members for org '' @ org @ '': '' @ err)), tr)
         | ((m, None), tr) \<Rightarrow> (Next (v\<lparr>members := m\<rparr>), tr))
      else (Next v, []))"

text \<open>Lines 221-229: the last change whose file name is OWNERS_ALIASES, if any.\<close>

definition scanOwnersAliases :: "PullRequestChange list \<Rightarrow> PullRequestChange \<times> bool" where
  "scanOwnersAliases changes =
     foldl (\<lambda>acc change. if Filename change = ownersAliasesFileName then (change, True) else acc)
       (\<lparr>Filename = [], Patch = []\<rparr>, False) changes"

text \<open>Lines 231-237.\<close>

definition listOwnersFiles :: "PullRequestChange list \<Rightarrow> PullRequestChange list" where
  "listOwnersFiles changes = filter (\<lambda>change. Base (Filename change) = ownersFileName) changes"

text \<open>Lines 259-299: the OWNERS_ALIASES file of the pull request.\<close>

definition checkOwnersAliases ::
  "world \<Rightarrow> string \<Rightarrow> string \<Rightarrow> PullRequestChange \<Rightarrow> vars \<Rightarrow> vars step \<times> call list" where
  "checkOwnersAliases w dir org modifiedOwnerAliasesFile v =
     (let path = Join [dir, ownersAliasesFileName]
      in case ioutil_ReadFile w path of
           Inl err \<Rightarrow>
             (Return None, [ReadFile path, LogError err (''Failed to read '' @ path @ ''.'')])
         | Inr b \<Rightarrow>
             (let parsed = repoowners_ParseAliasesConfig w b;
                  v1 = v\<lparr>repoAliases := fst parsed\<rparr>;
                  located =
                    (case snd parsed of
                       None \<Rightarrow> (v1, [])
                     | Some err \<Rightarrow>
                         (let found = patchLine w err (Patch modifiedOwnerAliasesFile)
                                        ownersAliasesFileName
                          in (v1\<lparr>ownersAliasesFileError :=
                                    \<lparr>line = fst found,
                                     message = ''Cannot parse file: '' @ err @ ''.''\<rparr>,
                                  wrongOwnersAliasesFilePresent := True\<rparr>,
                              snd found)));
                  fetched = ensureMembers w org (fst located)
              in case fst fetched of
                   Return e \<Rightarrow> (Return e, ReadFile path # snd located @ snd fetched)
                 | Next v3 \<Rightarrow>
                     (Next (v3\<lparr>nonMembers := ExpandAllAliases (repoAliases v3) - members v3\<rparr>),
                      ReadFile path # snd located @ snd fetched)))"

text \<open>Lines 304-313: OWNERS files changed and OWNERS_ALIASES did not.\<close>

definition loadOwnersAliases :: "world \<Rightarrow> string \<Rightarrow> vars \<Rightarrow> vars step \<times> call list" where
  "loadOwnersAliases w dir v =
     (let path = Join [dir, ownersAliasesFileName]
      in case ioutil_ReadFile w path of
           Inl err \<Rightarrow>
             (Return None, [ReadFile path, LogError err (''Failed to read '' @ path @ ''.'')])
         | Inr b \<Rightarrow> (Return (snd (repoowners_ParseAliasesConfig w b)), [ReadFile path]))"

text \<open>
  Lines 327-365: the role lists of an OWNERS file, or the error of the parser of the
  filtered schema.
\<close>

definition fullRoles :: "FullConfig \<Rightarrow> Config" where
  "fullRoles full =
     \<lparr>Approvers = concat (map (\<lambda>f. Approvers (snd f)) full),
      Reviewers = concat (map (\<lambda>f. Reviewers (snd f)) full),
      RequiredReviewers = concat (map (\<lambda>f. RequiredReviewers (snd f)) full),
      Labels = concat (map (\<lambda>f. Labels (snd f)) full)\<rparr>"

definition parseFull :: "world \<Rightarrow> string \<Rightarrow> string + Config" where
  "parseFull w b =
     (case repoowners_ParseFullConfig w b of
        Inl err \<Rightarrow> Inl err
      | Inr full \<Rightarrow> Inr (fullRoles full))"

definition parseOwners :: "world \<Rightarrow> string \<Rightarrow> string + Config" where
  "parseOwners w b =
     (case repoowners_ParseSimpleConfig w b of
        Inl err \<Rightarrow> parseFull w b
      | Inr simple \<Rightarrow> if Empty simple then parseFull w b else Inr simple)"

definition recordWrong :: "string \<Rightarrow> int \<Rightarrow> string \<Rightarrow> vars \<Rightarrow> vars" where
  "recordWrong fileName lineNumber msg v =
     v\<lparr>wrongOwnersFiles :=
         AList.update fileName \<lparr>line = lineNumber, message = msg\<rparr> (wrongOwnersFiles v)\<rparr>"

text \<open>
  Lines 366-389: the checks on the role lists of one OWNERS file. The line of the
  message is 1, since \<open>lineNumber\<close> is only set where parsing failed.
\<close>

definition checkRoles ::
  "world \<Rightarrow> string \<Rightarrow> string list \<Rightarrow> PullRequestChange \<Rightarrow> Config \<Rightarrow> vars \<Rightarrow> vars step \<times> call list" where
  "checkRoles w org labelsBlackList c roles v =
     (if HasAny (set (Labels roles)) labelsBlackList then
        (Next (recordWrong (Filename c) 1
                 (''File contains blacklisted labels: ''
                    @ showStrings (sorted_list_of_set (set (Labels roles) \<inter> set labelsBlackList))
                    @ ''.'') v),
         [])
      else if Dir (Filename c) = ''.'' \<and> length (Approvers roles) = 0 then
        (Next (recordWrong (Filename c) 1
                 (''No approvers defined in this root directory '' @ ownersFileName @ '' file.'')
                 v),
         [])
      else
        (let fetched = ensureMembers w org v
         in case fst fetched of
              Return e \<Rightarrow> (Return e, snd fetched)
            | Next v' \<Rightarrow>
                (Next (v'\<lparr>nonMembers :=
                           nonMembers v' \<union>
                           getNonMembersFromLists (repoAliases v') (members v')
                             [Approvers roles, Reviewers roles, RequiredReviewers roles]\<rparr>),
                 snd fetched)))"

text \<open>Lines 317-389: the body of the loop over the changed OWNERS files.\<close>

definition checkOwnersFile ::
  "world \<Rightarrow> string \<Rightarrow> string \<Rightarrow> string list \<Rightarrow> PullRequestChange \<Rightarrow> vars \<Rightarrow> vars step \<times> call list" where
  "checkOwnersFile w dir org labelsBlackList c v =
     (let path = Join [dir, Filename c]
      in case ioutil_ReadFile w path of
           Inl err \<Rightarrow>
             (Return None, [ReadFile path, LogError err (''Failed to read '' @ path @ ''.'')])
         | Inr b \<Rightarrow>
             (case parseOwners w b of
                Inl err \<Rightarrow>
                  (let found = patchLine w err (Patch c) (Filename c)
                   in (Next (recordWrong (Filename c) (fst found)
                               (''Cannot parse file: '' @ err @ ''.'') v),
                       ReadFile path # snd found))
              | Inr roles \<Rightarrow>
                  (let checked = checkRoles w org labelsBlackList c roles v
                   in (fst checked, ReadFile path # snd checked))))"

text \<open>Lines 316-390: the loop.\<close>

fun checkOwnersFiles ::
  "world \<Rightarrow> string \<Rightarrow> string \<Rightarrow> string list \<Rightarrow> PullRequestChange list \<Rightarrow> vars \<Rightarrow> vars step \<times> call list" where
  "checkOwnersFiles w dir org labelsBlackList [] v = (Next v, [])"
| "checkOwnersFiles w dir org labelsBlackList (c # cs) v =
     (case checkOwnersFile w dir org labelsBlackList c v of
        (Return e, tr) \<Rightarrow> (Return e, tr)
      | (Next v', tr) \<Rightarrow>
          (let rest = checkOwnersFiles w dir org labelsBlackList cs v'
           in (fst rest, tr @ snd rest)))"

text \<open>Line 393: the test that decides between the two reactions.\<close>

definition hasAnyViolation :: "vars \<Rightarrow> bool" where
  "hasAnyViolation v =
     (0 < length (wrongOwnersFiles v) \<or> wrongOwnersAliasesFilePresent v \<or> nonMembers v \<noteq> {})"

text \<open>
  Go leaves open the order in which \<open>range\<close> meets the entries of a map. The world
  chooses it for \<open>wrongOwnersFiles\<close>: its answer is taken when it is a rearrangement
  of the entries, so that under every world the loop meets each entry once, and every
  order is the one of some world.
\<close>

definition rangeOver ::
  "world \<Rightarrow> (string \<times> messageWithLine) list \<Rightarrow> (string \<times> messageWithLine) list" where
  "rangeOver w m = (let xs = range_wrongOwnersFiles w m in if mset xs = mset m then xs else m)"

text \<open>Lines 402-421: the inline comments.\<close>

definition reviewComments :: "world \<Rightarrow> vars \<Rightarrow> DraftReviewComment list" where
  "reviewComments w v =
     (if 0 < length (wrongOwnersFiles v) then
        map (\<lambda>entry. \<lparr>Path = fst entry, Position = line (snd entry),
                       Body = message (snd entry)\<rparr>) (rangeOver w (wrongOwnersFiles v))
      else [])
     @ (if wrongOwnersAliasesFilePresent v then
          [\<lparr>Path = ownersAliasesFileName, Position = line (ownersAliasesFileError v),
            Body = message (ownersAliasesFileError v)\<rparr>]
        else [])"

text \<open>Lines 394-397 and 423-439: the text of the review.\<close>

definition reviewResponse :: "world \<Rightarrow> string \<Rightarrow> vars \<Rightarrow> string" where
  "reviewResponse w org v =
     (let n = length (wrongOwnersFiles v);
          s = (if n = 1 then [] else ''s'')
      in ''Adding the '' @ labels_InvalidOwners w @ '' label because of the following errors:''
         @ [CHR 0x0A]
         @ (if 0 < n then ''- '' @ showNat n @ '' invalid '' @ ownersFileName @ '' file'' @ s
            else [])
         @ (if wrongOwnersAliasesFilePresent v then
              ''- An invalid '' @ ownersAliasesFileName @ '' file''
            else [])
         @ (if nonMembers v \<noteq> {} then
              ''- The following users are not members of the '' @ org
              @ '' GitHub org. Membership is mandatory for being listed in an '' @ ownersFileName
              @ '' file. Instructions for applying for membership can be found ''
              @ ''[here](https://git.k8s.io/community/community-membership.md#member).''
              @ concat (map (\<lambda>user. [CHR 0x0A] @ ''  - @'' @ user)
                          (sorted_list_of_set (nonMembers v)))
            else []))"

definition reviewLogs :: "vars \<Rightarrow> call list" where
  "reviewLogs v =
     (let n = length (wrongOwnersFiles v);
          s = (if n = 1 then [] else ''s'')
      in (if 0 < n then
            [LogDebug (''Creating a review for '' @ showNat n @ '' '' @ ownersFileName @ '' file''
                       @ s @ ''.'')]
          else [])
         @ (if wrongOwnersAliasesFilePresent v then
              [LogDebug (''Creating a review for the '' @ ownersAliasesFileName @ '' file.'')]
            else []))"

definition draftReview :: "world \<Rightarrow> PullRequestEvent \<Rightarrow> vars \<Rightarrow> DraftReview" where
  "draftReview w pre v =
     \<lparr>CommitSHA = (if PullRequest_Head_SHA pre \<noteq> [] then PullRequest_Head_SHA pre else []),
      ReviewBody =
        plugins_FormatResponseRaw w (PullRequest_Body pre) (PullRequest_HTMLURL pre)
          (PullRequest_User_Login pre) (reviewResponse w (Repo_Owner_Login pre) v),
      Action = Comment,
      Comments = reviewComments w v\<rparr>"

text \<open>Lines 392-460: the reaction.\<close>

definition react :: "world \<Rightarrow> PullRequestEvent \<Rightarrow> vars \<Rightarrow> string option \<times> call list" where
  "react w pre v =
     (let org = Repo_Owner_Login pre;
          repo = Repo_Name pre
      in if hasAnyViolation v then
           (case ghc_AddLabel w org repo (Number pre) (labels_InvalidOwners w) of
              Some err \<Rightarrow> (Some err, [AddLabel org repo (Number pre) (labels_InvalidOwners w)])
            | None \<Rightarrow>
                ((case ghc_CreateReview w org repo (Number pre) (draftReview w pre v) of
                    Some err \<Rightarrow>
                      Some (''error creating a review for '' @ reviewResponse w org v @ '': ''
                            @ err)
                  | None \<Rightarrow> None),
                 AddLabel org repo (Number pre) (labels_InvalidOwners w)
                 # reviewLogs v
                 @ [CreateReview org repo (Number pre) (draftReview w pre v)]))
         else
           (case ghc_RemoveLabel w org repo (Number pre) (labels_InvalidOwners w) of
              Some err \<Rightarrow>
                (Some (''failed removing '' @ labels_InvalidOwners w @ '' label: '' @ err),
                 [RemoveLabel org repo (Number pre) (labels_InvalidOwners w)])
            | None \<Rightarrow> (None, [RemoveLabel org repo (Number pre) (labels_InvalidOwners w)])))"

text \<open>Lines 257-390: everything between the checkout and the reaction.\<close>

definition checkFiles ::
  "world \<Rightarrow> string \<Rightarrow> string \<Rightarrow> string list \<Rightarrow> PullRequestChange list \<Rightarrow> vars step \<times> call list" where
  "checkFiles w dir org labelsBlackList changes =
     (let modifiedOwnerAliasesFile = fst (scanOwnersAliases changes);
          ownerAliasesModified = snd (scanOwnersAliases changes);
          modifiedOwnersFiles = listOwnersFiles changes;
          aliased =
            (if ownerAliasesModified then
               checkOwnersAliases w dir org modifiedOwnerAliasesFile initialVars
             else (Next initialVars, []))
      in case fst aliased of
           Return e \<Rightarrow> (Return e, snd aliased)
         | Next v \<Rightarrow>
             if 0 < length modifiedOwnersFiles \<and> \<not> ownerAliasesModified then
               (let loaded = loadOwnersAliases w dir v
                in (fst loaded, snd aliased @ snd loaded))
             else
               (let checked = checkOwnersFiles w dir org labelsBlackList modifiedOwnersFiles v
                in (fst checked, snd aliased @ snd checked)))"

text \<open>The deferred \<open>r.Clean()\<close>, run when \<open>handle\<close> returns after a clone.\<close>

definition deferClean :: "world \<Rightarrow> string option \<times> call list \<Rightarrow> string option \<times> call list" where
  "deferClean w r =
     (fst r,
      snd r @ CleanRepo
        # (case r_Clean w of
             None \<Rightarrow> []
           | Some err \<Rightarrow> [LogError err ''Error cleaning up repo.'']))"

definition handle :: "world \<Rightarrow> PullRequestEvent \<Rightarrow> string list \<Rightarrow> string option \<times> call list" where
  "handle w pre labelsBlackList =
     (let org = Repo_Owner_Login pre;
          repo = Repo_Name pre;
          opening = [GetPullRequestChanges org repo (Number pre)]
      in case ghc_GetPullRequestChanges w org repo (Number pre) of
           Inl err \<Rightarrow> (Some (''error getting PR changes: '' @ err), opening)
         | Inr changes \<Rightarrow>
             if length (listOwnersFiles changes) = 0 \<and> \<not> snd (scanOwnersAliases changes) then
               (None, opening)
             else
               (case gc_Clone w (Repo_FullName pre) of
                  Inl err \<Rightarrow> (Some err, opening @ [Clone (Repo_FullName pre)])
                | Inr dir \<Rightarrow>
                    deferClean w
                      (let cloned = opening @ [Clone (Repo_FullName pre),
                                               CheckoutPullRequest (Number pre)]
                       in case r_CheckoutPullRequest w (Number pre) of
                            Some err \<Rightarrow> (Some err, cloned)
                          | None \<Rightarrow>
                              (let checked = checkFiles w dir org labelsBlackList changes
                               in case fst checked of
                                    Return e \<Rightarrow> (e, cloned @ snd checked)
                                  | Next v \<Rightarrow>
                                      (let acted = react w pre v
                                       in (fst acted, cloned @ snd checked @ snd acted))))))"

subsection \<open>A pull request to run the plugin on\<close>

text \<open>
  A checkout at \<open>/r\<close> with an alias file and five OWNERS files; the parsers of
  package repoowners answer on the content of each, every call on GitHub succeeds, and
  \<open>range\<close> meets the entries of a map last one first.
  The content of the alias file and the changed files of the pull request are the
  parameters.
\<close>

definition examplePre :: PullRequestEvent where
  "examplePre =
     \<lparr>Number = 7, Repo_Owner_Login = ''kubernetes'', Repo_Name = ''test-infra'',
      Repo_FullName = ''kubernetes/test-infra'', PullRequest_Body = ''Update owners'',
      PullRequest_HTMLURL = ''https://example.org/pull/7'', PullRequest_User_Login = ''alice'',
      PullRequest_Head_SHA = ''abc123''\<rparr>"

definition exampleWorld :: "string \<Rightarrow> PullRequestChange list \<Rightarrow> world" where
  "exampleWorld aliasesContent changes =
     \<lparr>ghc_GetPullRequestChanges = (\<lambda>org repo n. Inr changes),
      ghc_AddLabel = (\<lambda>org repo n l. None),
      ghc_RemoveLabel = (\<lambda>org repo n l. None),
      ghc_CreateReview = (\<lambda>org repo n r. None),
      gc_Clone = (\<lambda>fullName. Inr ''/r''),
      r_CheckoutPullRequest = (\<lambda>n. None),
      r_Clean = None,
      ioutil_ReadFile =
        (\<lambda>path. if path = ''/r/OWNERS_ALIASES'' then Inr aliasesContent
                else if path = ''/r/OWNERS'' then Inr ''root''
                else if path = ''/r/a/OWNERS'' then Inr ''bad''
                else if path = ''/r/b/OWNERS'' then Inr ''black''
                else if path = ''/r/c/OWNERS'' then Inr ''users''
                else if path = ''/r/d/OWNERS'' then Inr ''filtered''
                else Inl ''no such file''),
      repoowners_ParseAliasesConfig =
        (\<lambda>b. if b = ''aliases'' then ([(''team'', [])], None)
             else ([], Some ''yaml: line 2: mapping values are not allowed'')),
      repoowners_ParseSimpleConfig =
        (\<lambda>b. if b = ''root'' then
               Inr \<lparr>Approvers = [''team''], Reviewers = [], RequiredReviewers = [], Labels = []\<rparr>
             else if b = ''black'' then
               Inr \<lparr>Approvers = [''mallory''], Reviewers = [], RequiredReviewers = [],
                    Labels = [''priority/critical-urgent'', ''kind/flake'']\<rparr>
             else if b = ''users'' then
               Inr \<lparr>Approvers = [''team'', ''bob''], Reviewers = [''eve''],
                    RequiredReviewers = [], Labels = []\<rparr>
             else if b = ''filtered'' then
               Inr \<lparr>Approvers = [], Reviewers = [], RequiredReviewers = [], Labels = []\<rparr>
             else Inl ''yaml: line 3: could not find expected key''),
      repoowners_ParseFullConfig =
        (\<lambda>b. if b = ''filtered'' then
               Inr [(''.*'', \<lparr>Approvers = [], Reviewers = [], RequiredReviewers = [],
                            Labels = [''sig/testing'']\<rparr>)]
             else Inl ''yaml: line 4: did not find expected key''),
      golint_AddedLines =
        (\<lambda>patch. if patch = ''@@ -1,3 +1,5 @@'' then Inr [4 \<mapsto> 5] else Inl ''bad patch''),
      http_Get = (\<lambda>url. Inr (Inr ''members: [bob]'')),
      yaml_Unmarshal = (\<lambda>data config. None),
      plugins_FormatResponseRaw = (\<lambda>body url login response. ''@'' @ login @ '': '' @ response),
      labels_InvalidOwners = ''do-not-merge/invalid-owners-file'',
      range_wrongOwnersFiles = rev\<rparr>"

definition changed :: "string \<Rightarrow> PullRequestChange" where
  "changed name = \<lparr>Filename = name, Patch = ''@@ -1,3 +1,5 @@''\<rparr>"

definition exampleBlackList :: "string list" where
  "exampleBlackList = [''priority/critical-urgent'']"

text \<open>
  A pull request that changes the alias file and two sound OWNERS files, and what
  \<open>handle\<close> knows of it when it reacts.
\<close>

definition cleanChanges :: "PullRequestChange list" where
  "cleanChanges = [changed ''OWNERS_ALIASES'', changed ''OWNERS'', changed ''d/OWNERS'']"

definition cleanVars :: vars where
  "cleanVars =
     \<lparr>wrongOwnersFiles = [],
      ownersAliasesFileError = \<lparr>line = 0, message = []\<rparr>,
      wrongOwnersAliasesFilePresent = False,
      members = {},
      nonMembers = {},
      repoAliases = [(''team'', [])]\<rparr>"

text \<open>
  A pull request that breaks the alias file and changes an OWNERS file that does not
  parse, one with a blacklisted label and one that lists users.
\<close>

definition violationChanges :: "PullRequestChange list" where
  "violationChanges =
     [changed ''a/OWNERS'', changed ''b/OWNERS'', changed ''c/OWNERS'', changed ''OWNERS_ALIASES'']"

definition violationVars :: vars where
  "violationVars =
     \<lparr>wrongOwnersFiles =
        [(''a/OWNERS'',
          \<lparr>line = 5, message = ''Cannot parse file: yaml: line 4: did not find expected key.''\<rparr>),
         (''b/OWNERS'',
          \<lparr>line = 1,
            message = ''File contains blacklisted labels: [priority/critical-urgent].''\<rparr>)],
      ownersAliasesFileError =
        \<lparr>line = 1,
          message = ''Cannot parse file: yaml: line 2: mapping values are not allowed.''\<rparr>,
      wrongOwnersAliasesFilePresent = True,
      members = {},
      nonMembers = {''team'', ''bob'', ''eve''},
      repoAliases = []\<rparr>"

text \<open>Worlds in which one call fails.\<close>

definition labelFails :: "world \<Rightarrow> world" where
  "labelFails w = w\<lparr>ghc_AddLabel := (\<lambda>org repo n l. Some ''403 Forbidden'')\<rparr>"



definition changesFail :: "world \<Rightarrow> world" where
  "changesFail w = w\<lparr>ghc_GetPullRequestChanges := (\<lambda>org repo n. Inl ''404 Not Found'')\<rparr>"

text \<open>A world whose OWNERS file at the root names no approver.\<close>

definition rootUnapproved :: "world \<Rightarrow> world" where
  "rootUnapproved w =
     w\<lparr>ioutil_ReadFile :=
         (\<lambda>path. if path = ''/r/OWNERS'' then Inr ''filtered'' else ioutil_ReadFile w path)\<rparr>"

definition readsFail :: "world \<Rightarrow> world" where
  "readsFail w = w\<lparr>ioutil_ReadFile := (\<lambda>path. Inl ''permission denied'')\<rparr>"

text \<open>
  What holds of the local variables whenever the reaction is reached: the non-members
  are finitely many, and no file has two entries in \<open>wrongOwnersFiles\<close>.
\<close>

definition wellFormed :: "vars \<Rightarrow> bool" where
  "wellFormed v = (finite (nonMembers v) \<and> distinct (map fst (wrongOwnersFiles v)))"

section \<open>Properties\<close>

subsection \<open>What the statements before the reaction call\<close>

lemma getMembersForOrg_empty: "fst (fst (getMembersForOrg w org)) = {}"
  by (simp add: getMembersForOrg_def Let_def split: sum.splits option.splits)

lemma ensureMembers_Next: "ensureMembers w org v = (Next v', tr) \<Longrightarrow> v' = v"
  using getMembersForOrg_empty [of w org]
  by (auto simp: ensureMembers_def split: if_splits prod.splits option.splits)

lemma getMembersForOrg_trace: "filter isNotification (snd (getMembersForOrg w org)) = []"
  by (simp add: getMembersForOrg_def Let_def split: sum.splits option.splits)

lemma ensureMembers_trace: "filter isNotification (snd (ensureMembers w org v)) = []"
  using getMembersForOrg_trace [of w org]
  by (auto simp: ensureMembers_def split: if_splits prod.splits option.splits)

lemma patchLine_trace: "filter isNotification (snd (patchLine w e p f)) = []"
  by (simp add: patchLine_def Let_def split: sum.splits option.splits)

lemma checkOwnersAliases_trace:
  "filter isNotification (snd (checkOwnersAliases w dir org c v)) = []"
  by (simp add: checkOwnersAliases_def Let_def patchLine_trace ensureMembers_trace
      split: sum.splits option.splits step.splits)

lemma loadOwnersAliases_trace:
  "filter isNotification (snd (loadOwnersAliases w dir v)) = []"
  by (simp add: loadOwnersAliases_def Let_def split: sum.splits)

lemma checkRoles_trace:
  "filter isNotification (snd (checkRoles w org bl c roles v)) = []"
  by (simp add: checkRoles_def Let_def ensureMembers_trace split: step.splits)

lemma checkOwnersFile_trace:
  "filter isNotification (snd (checkOwnersFile w dir org bl c v)) = []"
  by (simp add: checkOwnersFile_def Let_def patchLine_trace checkRoles_trace
      split: sum.splits)

lemma checkOwnersFiles_trace:
  "filter isNotification (snd (checkOwnersFiles w dir org bl cs v)) = []"
proof (induction cs arbitrary: v)
  case Nil
  show ?case by simp
next
  case (Cons c cs)
  show ?case
    using checkOwnersFile_trace [of w dir org bl c v] Cons.IH
    by (auto simp: Let_def split: prod.splits step.splits)
qed

lemma checkFiles_trace:
  "filter isNotification (snd (checkFiles w dir org bl changes)) = []"
  by (simp add: checkFiles_def Let_def checkOwnersAliases_trace loadOwnersAliases_trace
      checkOwnersFiles_trace split: step.splits)

subsection \<open>The users of the role lists\<close>

lemma foldl_delete_aliases:
  "foldl (\<lambda>t login. if map_of aliases login \<noteq> None then t - {login} else t) T xs
     = T - (set xs \<inter> dom (map_of aliases))"
  by (induction xs arbitrary: T) (auto simp: dom_def)

lemma totalUsersOf_acc:
  "T \<inter> dom (map_of aliases) = {} \<Longrightarrow>
   totalUsersOf aliases T ls = (T \<union> \<Union> (set ` set ls)) - dom (map_of aliases)"
proof (induction ls arbitrary: T)
  case Nil
  then show ?case by auto
next
  case (Cons l ls)
  define T' where
    "T' = foldl (\<lambda>t login. if map_of aliases login \<noteq> None then t - {login} else t)
            (T \<union> set l) l"
  have T': "T' = (T \<union> set l) - (set l \<inter> dom (map_of aliases))"
    unfolding T'_def by (rule foldl_delete_aliases)
  have "T' \<inter> dom (map_of aliases) = {}"
    using Cons.prems unfolding T' by auto
  from Cons.IH [OF this]
  have "totalUsersOf aliases T' ls = (T' \<union> \<Union> (set ` set ls)) - dom (map_of aliases)" .
  moreover have "totalUsersOf aliases T (l # ls) = totalUsersOf aliases T' ls"
    unfolding T'_def by (simp only: totalUsersOf.simps)
  ultimately show ?case
    unfolding T' using Cons.prems by auto
qed

text \<open>
  C3, as the code has it: the total-user set of \<open>getNonMembersFromLists\<close> is the
  union of the role lists without the keys of the alias table. An entry that is an
  alias name adds nothing to it, neither the alias name nor the members of the alias;
  so no alias name is in the set, and the non-members are what is left of it after
  the roster is taken away.
\<close>

theorem totalUsers_without_aliases:
  "totalUsersOf aliases {} roleLists = \<Union> (set ` set roleLists) - dom (map_of aliases)
   \<and> totalUsersOf aliases {} roleLists \<inter> dom (map_of aliases) = {}
   \<and> getNonMembersFromLists aliases mem roleLists
       = \<Union> (set ` set roleLists) - dom (map_of aliases) - mem"
  using totalUsersOf_acc [of "{}" aliases roleLists]
  by (auto simp: getNonMembersFromLists_def)

text \<open>
  C3, as the claim has it, fails: \<open>eve\<close> is the one member of the alias \<open>team\<close>,
  \<open>team\<close> is listed, and \<open>eve\<close> is not in the total-user set.
\<close>

theorem totalUsers_alias_members_counterexample:
  "''eve'' \<in> ExpandAllAliases [(''team'', [''eve''])]
   \<and> ''eve'' \<notin> totalUsersOf [(''team'', [''eve''])] {} [[''team'', ''bob'']]
   \<and> getNonMembersFromLists [(''team'', [''eve''])] {} [[''team'', ''bob'']] = {''bob''}"
  by (simp add: ExpandAllAliases_def getNonMembersFromLists_def)

subsection \<open>The local variables when the reaction is reached\<close>

lemma finite_ExpandAllAliases: "finite (ExpandAllAliases a)"
  by (auto simp: ExpandAllAliases_def split: option.splits)

lemma finite_totalUsersOf: "finite T \<Longrightarrow> finite (totalUsersOf aliases T ls)"
proof (induction ls arbitrary: T)
  case Nil
  then show ?case by simp
next
  case (Cons l ls)
  have "finite (foldl (\<lambda>t login. if map_of aliases login \<noteq> None then t - {login} else t)
                  (T \<union> set l) l)"
    unfolding foldl_delete_aliases using Cons.prems by simp
  from Cons.IH [OF this] show ?case by (simp only: totalUsersOf.simps)
qed

lemma finite_getNonMembersFromLists: "finite (getNonMembersFromLists aliases mem ls)"
  by (simp add: getNonMembersFromLists_def finite_totalUsersOf)

lemma wellFormed_recordWrong: "wellFormed v \<Longrightarrow> wellFormed (recordWrong f n m v)"
  by (simp add: wellFormed_def recordWrong_def distinct_update)

lemma checkRoles_cases:
  assumes "checkRoles w org bl c roles v = (Next v', tr)"
  shows "(\<exists>m. v' = recordWrong (Filename c) 1 m v) \<or>
         v' = v\<lparr>nonMembers := nonMembers v \<union>
                  getNonMembersFromLists (repoAliases v) (members v)
                    [Approvers roles, Reviewers roles, RequiredReviewers roles]\<rparr>"
proof (cases "HasAny (set (Labels roles)) bl \<or> (Dir (Filename c) = ''.'' \<and> length (Approvers roles) = 0)")
  case True
  then show ?thesis using assms by (auto simp: checkRoles_def split: if_splits)
next
  case False
  obtain r tr' where e: "ensureMembers w org v = (r, tr')" by (cases "ensureMembers w org v")
  with False assms obtain v'' where r: "r = Next v''"
    by (cases r) (auto simp: checkRoles_def Let_def)
  have "v'' = v" using ensureMembers_Next e r by blast
  with False assms e r show ?thesis by (auto simp: checkRoles_def Let_def)
qed

lemma wellFormed_checkRoles:
  assumes "wellFormed v" and "checkRoles w org bl c roles v = (Next v', tr)"
  shows "wellFormed v'"
  using checkRoles_cases [OF assms(2)] assms(1)
proof (elim disjE exE)
  fix m assume "v' = recordWrong (Filename c) 1 m v"
  then show ?thesis using assms(1) by (simp add: wellFormed_recordWrong)
next
  assume "v' = v\<lparr>nonMembers := nonMembers v \<union>
                  getNonMembersFromLists (repoAliases v) (members v)
                    [Approvers roles, Reviewers roles, RequiredReviewers roles]\<rparr>"
  then show ?thesis using assms(1)
    by (simp add: wellFormed_def finite_getNonMembersFromLists)
qed

lemma wellFormed_checkOwnersFile:
  assumes "wellFormed v" and "checkOwnersFile w dir org bl c v = (Next v', tr)"
  shows "wellFormed v'"
proof (cases "ioutil_ReadFile w (Join [dir, Filename c])")
  case (Inl err)
  then show ?thesis using assms(2) by (simp add: checkOwnersFile_def Let_def)
next
  case (Inr b)
  show ?thesis
  proof (cases "parseOwners w b")
    case (Inl err)
    then show ?thesis using assms Inr
      by (auto simp: checkOwnersFile_def Let_def wellFormed_recordWrong)
  next
    case roles: (Inr roles)
    obtain r tr' where c: "checkRoles w org bl c roles v = (r, tr')"
      by (cases "checkRoles w org bl c roles v")
    with assms(2) Inr roles have "r = Next v'"
      by (simp add: checkOwnersFile_def Let_def)
    with c wellFormed_checkRoles [OF assms(1)] show ?thesis by blast
  qed
qed

lemma wellFormed_checkOwnersFiles:
  "wellFormed v \<Longrightarrow> checkOwnersFiles w dir org bl cs v = (Next v', tr) \<Longrightarrow> wellFormed v'"
proof (induction cs arbitrary: v tr)
  case Nil
  then show ?case by simp
next
  case (Cons c cs)
  obtain r t where s: "checkOwnersFile w dir org bl c v = (r, t)"
    by (cases "checkOwnersFile w dir org bl c v")
  with Cons.prems(2) obtain v1 where r: "r = Next v1"
    by (cases r) auto
  have w1: "wellFormed v1" using wellFormed_checkOwnersFile [OF Cons.prems(1)] s r by blast
  obtain r2 t2 where s2: "checkOwnersFiles w dir org bl cs v1 = (r2, t2)"
    by (cases "checkOwnersFiles w dir org bl cs v1")
  with Cons.prems(2) s r have "r2 = Next v'" by (simp add: Let_def)
  with Cons.IH [OF w1] s2 show ?case by blast
qed

lemma ensureMembers_fst_Next: "fst (ensureMembers w org v) = Next v' \<Longrightarrow> v' = v"
  using ensureMembers_Next [of w org v v' "snd (ensureMembers w org v)"]
  by (cases "ensureMembers w org v") simp

lemma wellFormed_checkOwnersAliases:
  assumes "wellFormed v" and "checkOwnersAliases w dir org c v = (Next v', tr)"
  shows "wellFormed v'"
proof -
  have "finite (nonMembers v') \<and> wrongOwnersFiles v' = wrongOwnersFiles v"
    using assms(2)
    by (auto simp: checkOwnersAliases_def Let_def finite_ExpandAllAliases
        split: sum.splits option.splits step.splits
        dest!: ensureMembers_fst_Next)
  then show ?thesis using assms(1) by (simp add: wellFormed_def)
qed

lemma wellFormed_checkFiles:
  assumes "checkFiles w dir org bl changes = (Next v, tr)"
  shows "wellFormed v"
proof -
  have i: "wellFormed initialVars" by (simp add: wellFormed_def initialVars_def)
  show ?thesis
  proof (cases "snd (scanOwnersAliases changes)")
    case True
    obtain r t where a: "checkOwnersAliases w dir org (fst (scanOwnersAliases changes)) initialVars = (r, t)"
      by (cases "checkOwnersAliases w dir org (fst (scanOwnersAliases changes)) initialVars")
    with assms True obtain v1 where r: "r = Next v1"
      by (cases r) (auto simp: checkFiles_def Let_def)
    have w1: "wellFormed v1" using wellFormed_checkOwnersAliases [OF i] a r by blast
    obtain r2 t2 where l: "checkOwnersFiles w dir org bl (listOwnersFiles changes) v1 = (r2, t2)"
      by (cases "checkOwnersFiles w dir org bl (listOwnersFiles changes) v1")
    with assms True a r have "r2 = Next v" by (simp add: checkFiles_def Let_def)
    with wellFormed_checkOwnersFiles [OF w1] l show ?thesis by blast
  next
    case False
    show ?thesis
    proof (cases "0 < length (listOwnersFiles changes)")
      case True
      with False assms show ?thesis
        by (auto simp: checkFiles_def Let_def loadOwnersAliases_def split: sum.splits)
    next
      case f: False
      with False assms show ?thesis using i
        by (auto simp: checkFiles_def Let_def)
    qed
  qed
qed

subsection \<open>The reaction\<close>

lemma handle_decides:
  assumes "ghc_GetPullRequestChanges w (Repo_Owner_Login pre) (Repo_Name pre) (Number pre)
             = Inr changes"
    and "0 < length (listOwnersFiles changes) \<or> snd (scanOwnersAliases changes)"
    and "gc_Clone w (Repo_FullName pre) = Inr dir"
    and "r_CheckoutPullRequest w (Number pre) = None"
    and "checkFiles w dir (Repo_Owner_Login pre) bl changes = (Next v, tr)"
  shows "handle w pre bl =
           deferClean w
             (fst (react w pre v),
              [GetPullRequestChanges (Repo_Owner_Login pre) (Repo_Name pre) (Number pre),
               Clone (Repo_FullName pre), CheckoutPullRequest (Number pre)]
              @ tr @ snd (react w pre v))"
  using assms by (auto simp: handle_def Let_def)

lemma deferClean_notifications:
  "filter isNotification (snd (deferClean w r)) = filter isNotification (snd r)"
  by (simp add: deferClean_def split: option.splits)

lemma deferClean_fst: "fst (deferClean w r) = fst r"
  by (simp add: deferClean_def)

lemma handle_decides_notifications:
  assumes "ghc_GetPullRequestChanges w (Repo_Owner_Login pre) (Repo_Name pre) (Number pre)
             = Inr changes"
    and "0 < length (listOwnersFiles changes) \<or> snd (scanOwnersAliases changes)"
    and "gc_Clone w (Repo_FullName pre) = Inr dir"
    and "r_CheckoutPullRequest w (Number pre) = None"
    and "checkFiles w dir (Repo_Owner_Login pre) bl changes = (Next v, tr)"
  shows "fst (handle w pre bl) = fst (react w pre v)
         \<and> filter isNotification (snd (handle w pre bl))
             = filter isNotification (snd (react w pre v))"
proof -
  have tr: "filter isNotification tr = []"
    using checkFiles_trace [of w dir "Repo_Owner_Login pre" bl changes] assms(5) by simp
  show ?thesis
    unfolding handle_decides [OF assms] deferClean_notifications deferClean_fst
    using tr by simp
qed

lemma reviewLogs_notifications: "filter isNotification (reviewLogs v) = []"
  by (simp add: reviewLogs_def Let_def)

lemma react_no_violation:
  "\<not> hasAnyViolation v \<Longrightarrow>
   snd (react w pre v)
     = [RemoveLabel (Repo_Owner_Login pre) (Repo_Name pre) (Number pre) (labels_InvalidOwners w)]
   \<and> fst (react w pre v)
       = (case ghc_RemoveLabel w (Repo_Owner_Login pre) (Repo_Name pre) (Number pre)
                (labels_InvalidOwners w) of
            None \<Rightarrow> None
          | Some err \<Rightarrow>
              Some (''failed removing '' @ labels_InvalidOwners w @ '' label: '' @ err))"
  by (simp add: react_def Let_def split: option.splits)

lemma react_violation_label_fails:
  "hasAnyViolation v \<Longrightarrow>
   ghc_AddLabel w (Repo_Owner_Login pre) (Repo_Name pre) (Number pre) (labels_InvalidOwners w)
     = Some err \<Longrightarrow>
   react w pre v
     = (Some err,
        [AddLabel (Repo_Owner_Login pre) (Repo_Name pre) (Number pre) (labels_InvalidOwners w)])"
  by (simp add: react_def Let_def)

lemma react_violation:
  "hasAnyViolation v \<Longrightarrow>
   ghc_AddLabel w (Repo_Owner_Login pre) (Repo_Name pre) (Number pre) (labels_InvalidOwners w)
     = None \<Longrightarrow>
   filter isNotification (snd (react w pre v))
     = [AddLabel (Repo_Owner_Login pre) (Repo_Name pre) (Number pre) (labels_InvalidOwners w),
        CreateReview (Repo_Owner_Login pre) (Repo_Name pre) (Number pre) (draftReview w pre v)]
   \<and> fst (react w pre v)
       = (case ghc_CreateReview w (Repo_Owner_Login pre) (Repo_Name pre) (Number pre)
                (draftReview w pre v) of
            None \<Rightarrow> None
          | Some err \<Rightarrow>
              Some (''error creating a review for ''
                    @ reviewResponse w (Repo_Owner_Login pre) v @ '': '' @ err))"
  by (simp add: react_def Let_def reviewLogs_notifications split: option.splits)

lemma response_count:
  assumes "0 < length (wrongOwnersFiles v)"
  shows "sublist (''- '' @ showNat (length (wrongOwnersFiles v)) @ '' invalid OWNERS file'')
           (reviewResponse w org v)"
proof -
  have "\<exists>ps ss. reviewResponse w org v
          = ps @ (''- '' @ showNat (length (wrongOwnersFiles v)) @ '' invalid OWNERS file'') @ ss"
    apply (rule exI [of _ "''Adding the '' @ labels_InvalidOwners w
                           @ '' label because of the following errors:'' @ [CHR 0x0A]"])
    using assms
    by (auto simp: reviewResponse_def Let_def ownersFileName_def)
  then show ?thesis by (simp only: sublist_def)
qed

lemma sublist_middle: "sublist xs (ps @ xs @ ss)"
  by (auto simp: sublist_def)

lemma response_aliases:
  assumes "wrongOwnersAliasesFilePresent v"
  shows "sublist ''- An invalid OWNERS_ALIASES file'' (reviewResponse w org v)"
proof -
  define n where "n = length (wrongOwnersFiles v)"
  define ps where
    "ps = ''Adding the '' @ labels_InvalidOwners w
          @ '' label because of the following errors:'' @ [CHR 0x0A]
          @ (if 0 < n then ''- '' @ showNat n @ '' invalid '' @ ownersFileName @ '' file''
                           @ (if n = 1 then [] else ''s'')
             else [])"
  have "\<exists>ss. reviewResponse w org v = ps @ ''- An invalid OWNERS_ALIASES file'' @ ss"
    using assms
    by (auto simp: reviewResponse_def Let_def ownersAliasesFileName_def ps_def n_def)
  then show ?thesis using sublist_middle by metis
qed

lemma response_user:
  assumes "finite (nonMembers v)" and "u \<in> nonMembers v"
  shows "sublist (''  - @'' @ u) (reviewResponse w org v)"
proof -
  define f where "f = (\<lambda>user. [CHR 0x0A] @ ''  - @'' @ user)"
  have "u \<in> set (sorted_list_of_set (nonMembers v))" using assms by simp
  then obtain xs ys where split: "sorted_list_of_set (nonMembers v) = xs @ u # ys"
    by (meson split_list)
  have c: "concat (map f (sorted_list_of_set (nonMembers v)))
             = (concat (map f xs) @ [CHR 0x0A]) @ (''  - @'' @ u) @ concat (map f ys)"
    unfolding split by (simp add: f_def)
  have ne: "nonMembers v \<noteq> {}" using assms(2) by auto
  have "\<exists>ps. reviewResponse w org v
          = ps @ concat (map f (sorted_list_of_set (nonMembers v)))"
    using ne by (simp add: reviewResponse_def Let_def f_def)
  then obtain ps where
    "reviewResponse w org v
       = (ps @ concat (map f xs) @ [CHR 0x0A]) @ (''  - @'' @ u) @ concat (map f ys)"
    unfolding c by auto
  then show ?thesis using sublist_middle by metis
qed

text \<open>
  C2, as the code has it. When a run reaches its reaction with no violation (no
  wrong OWNERS file, no wrong alias file, no non-member), the one call it makes on the
  pull request is \<open>RemoveLabel\<close> for the invalid-owners label: no review is posted,
  and no earlier comment is pruned, the plugin having no comment pruner. The run
  reports success exactly when \<open>RemoveLabel\<close> succeeds.
\<close>

theorem handle_no_violation:
  assumes "ghc_GetPullRequestChanges w (Repo_Owner_Login pre) (Repo_Name pre) (Number pre)
             = Inr changes"
    and "0 < length (listOwnersFiles changes) \<or> snd (scanOwnersAliases changes)"
    and "gc_Clone w (Repo_FullName pre) = Inr dir"
    and "r_CheckoutPullRequest w (Number pre) = None"
    and "checkFiles w dir (Repo_Owner_Login pre) bl changes = (Next v, tr)"
    and "\<not> hasAnyViolation v"
  shows "filter isNotification (snd (handle w pre bl))
           = [RemoveLabel (Repo_Owner_Login pre) (Repo_Name pre) (Number pre)
                (labels_InvalidOwners w)]
         \<and> (fst (handle w pre bl) = None)
             = (ghc_RemoveLabel w (Repo_Owner_Login pre) (Repo_Name pre) (Number pre)
                  (labels_InvalidOwners w) = None)"
  using handle_decides_notifications [OF assms(1-5)] react_no_violation [OF assms(6), of w pre]
  by (simp split: option.splits)

lemma pair_of_fst: "fst x = a \<Longrightarrow> x = (a, snd x)"
  by auto

lemma clean_run_checked:
  "fst (checkFiles (exampleWorld ''aliases'' cleanChanges) ''/r'' ''kubernetes'' exampleBlackList
          cleanChanges) = Next cleanVars"
  by code_simp

lemma cleanVars_no_violation: "\<not> hasAnyViolation cleanVars"
  by (simp add: hasAnyViolation_def cleanVars_def)

text \<open>
  The clean pull request is such a run: the label is removed and the run succeeds.
\<close>

theorem handle_no_violation_witness:
  "filter isNotification
     (snd (handle (exampleWorld ''aliases'' cleanChanges) examplePre exampleBlackList))
     = [RemoveLabel ''kubernetes'' ''test-infra'' 7 ''do-not-merge/invalid-owners-file'']
   \<and> fst (handle (exampleWorld ''aliases'' cleanChanges) examplePre exampleBlackList) = None"
proof -
  let ?w = "exampleWorld ''aliases'' cleanChanges"
  have 1: "ghc_GetPullRequestChanges ?w (Repo_Owner_Login examplePre) (Repo_Name examplePre)
             (Number examplePre) = Inr cleanChanges"
    by (simp add: exampleWorld_def)
  have 2: "0 < length (listOwnersFiles cleanChanges) \<or> snd (scanOwnersAliases cleanChanges)"
    by code_simp
  have 3: "gc_Clone ?w (Repo_FullName examplePre) = Inr ''/r''"
    by (simp add: exampleWorld_def)
  have 4: "r_CheckoutPullRequest ?w (Number examplePre) = None"
    by (simp add: exampleWorld_def)
  have 5: "checkFiles ?w ''/r'' (Repo_Owner_Login examplePre) exampleBlackList cleanChanges
             = (Next cleanVars,
                snd (checkFiles ?w ''/r'' (Repo_Owner_Login examplePre) exampleBlackList
                       cleanChanges))"
    using clean_run_checked by (intro pair_of_fst) (simp add: examplePre_def)
  show ?thesis
    using handle_no_violation [OF 1 2 3 4 5 cleanVars_no_violation]
    by (simp add: examplePre_def exampleWorld_def)
qed

text \<open>
  C2, as the claim has it, fails on the clean pull request: the run finds no
  violation, and its calls, listed here in full, prune no comment.
\<close>

theorem handle_prunes_nothing_counterexample:
  "fst (checkFiles (exampleWorld ''aliases'' cleanChanges) ''/r'' ''kubernetes'' exampleBlackList
          cleanChanges) = Next cleanVars
   \<and> \<not> hasAnyViolation cleanVars
   \<and> handle (exampleWorld ''aliases'' cleanChanges) examplePre exampleBlackList
       = (None,
          [GetPullRequestChanges ''kubernetes'' ''test-infra'' 7,
           Clone ''kubernetes/test-infra'', CheckoutPullRequest 7,
           ReadFile ''/r/OWNERS_ALIASES'',
           HttpGet ''https://raw.githubusercontent.com/kubernetes/org/master/config/kubernetes/org.yaml'',
           ReadFile ''/r/OWNERS'',
           HttpGet ''https://raw.githubusercontent.com/kubernetes/org/master/config/kubernetes/org.yaml'',
           ReadFile ''/r/d/OWNERS'',
           HttpGet ''https://raw.githubusercontent.com/kubernetes/org/master/config/kubernetes/org.yaml'',
           RemoveLabel ''kubernetes'' ''test-infra'' 7 ''do-not-merge/invalid-owners-file'',
           CleanRepo])
   \<and> PruneComments \<notin> set (snd (handle (exampleWorld ''aliases'' cleanChanges) examplePre
                                    exampleBlackList))"
proof -
  have h: "handle (exampleWorld ''aliases'' cleanChanges) examplePre exampleBlackList
       = (None,
          [GetPullRequestChanges ''kubernetes'' ''test-infra'' 7,
           Clone ''kubernetes/test-infra'', CheckoutPullRequest 7,
           ReadFile ''/r/OWNERS_ALIASES'',
           HttpGet ''https://raw.githubusercontent.com/kubernetes/org/master/config/kubernetes/org.yaml'',
           ReadFile ''/r/OWNERS'',
           HttpGet ''https://raw.githubusercontent.com/kubernetes/org/master/config/kubernetes/org.yaml'',
           ReadFile ''/r/d/OWNERS'',
           HttpGet ''https://raw.githubusercontent.com/kubernetes/org/master/config/kubernetes/org.yaml'',
           RemoveLabel ''kubernetes'' ''test-infra'' 7 ''do-not-merge/invalid-owners-file'',
           CleanRepo])"
    by code_simp
  show ?thesis
    unfolding h using clean_run_checked cleanVars_no_violation by simp
qed

lemma rangeOver_mset: "mset (rangeOver w m) = mset m"
  by (simp add: rangeOver_def Let_def)

lemma reviewComments_entries:
  "\<exists>entries. mset entries = mset (wrongOwnersFiles v)
      \<and> reviewComments w v
          = map (\<lambda>entry. \<lparr>Path = fst entry, Position = line (snd entry),
                           Body = message (snd entry)\<rparr>) entries
            @ (if wrongOwnersAliasesFilePresent v then
                 [\<lparr>Path = ownersAliasesFileName, Position = line (ownersAliasesFileError v),
                   Body = message (ownersAliasesFileError v)\<rparr>]
               else [])"
proof (cases "0 < length (wrongOwnersFiles v)")
  case True
  then have "mset (rangeOver w (wrongOwnersFiles v)) = mset (wrongOwnersFiles v)
      \<and> reviewComments w v
          = map (\<lambda>entry. \<lparr>Path = fst entry, Position = line (snd entry),
                           Body = message (snd entry)\<rparr>) (rangeOver w (wrongOwnersFiles v))
            @ (if wrongOwnersAliasesFilePresent v then
                 [\<lparr>Path = ownersAliasesFileName, Position = line (ownersAliasesFileError v),
                   Body = message (ownersAliasesFileError v)\<rparr>]
               else [])"
    by (simp add: reviewComments_def rangeOver_mset)
  then show ?thesis by blast
next
  case False
  then have "mset [] = mset (wrongOwnersFiles v)
      \<and> reviewComments w v
          = map (\<lambda>entry. \<lparr>Path = fst entry, Position = line (snd entry),
                           Body = message (snd entry)\<rparr>) []
            @ (if wrongOwnersAliasesFilePresent v then
                 [\<lparr>Path = ownersAliasesFileName, Position = line (ownersAliasesFileError v),
                   Body = message (ownersAliasesFileError v)\<rparr>]
               else [])"
    by (simp add: reviewComments_def)
  then show ?thesis by blast
qed

lemma handle_calls_AddLabel:
  assumes "ghc_GetPullRequestChanges w (Repo_Owner_Login pre) (Repo_Name pre) (Number pre)
             = Inr changes"
    and "0 < length (listOwnersFiles changes) \<or> snd (scanOwnersAliases changes)"
    and "gc_Clone w (Repo_FullName pre) = Inr dir"
    and "r_CheckoutPullRequest w (Number pre) = None"
    and "checkFiles w dir (Repo_Owner_Login pre) bl changes = (Next v, tr)"
    and "hasAnyViolation v"
  shows "AddLabel (Repo_Owner_Login pre) (Repo_Name pre) (Number pre) (labels_InvalidOwners w)
           \<in> set (snd (handle w pre bl))"
  unfolding handle_decides [OF assms(1-5)]
  using assms(6) by (simp add: deferClean_def react_def Let_def split: option.splits)

text \<open>
  C7, as the code has it. When a run reaches its reaction with a violation, it
  calls \<open>AddLabel\<close> for the invalid-owners label. If that call succeeds, the calls the
  run makes on the pull request are this one and then one \<open>CreateReview\<close>; if it
  fails, \<open>handle\<close> returns its error and \<open>AddLabel\<close> stays the only call. The review
  has one inline comment for each entry of \<open>wrongOwnersFiles\<close> (one entry per file),
  at the entry's line, in the order in which \<open>range\<close> meets the entries, and after
  them one for the alias file if it did not parse. Its body is the formatted
  response, which holds the number of invalid OWNERS files if there is one, the
  line on the alias file if it is wrong, and a bullet for every non-member.
\<close>

theorem handle_violation_review:
  assumes "ghc_GetPullRequestChanges w (Repo_Owner_Login pre) (Repo_Name pre) (Number pre)
             = Inr changes"
    and "0 < length (listOwnersFiles changes) \<or> snd (scanOwnersAliases changes)"
    and "gc_Clone w (Repo_FullName pre) = Inr dir"
    and "r_CheckoutPullRequest w (Number pre) = None"
    and "checkFiles w dir (Repo_Owner_Login pre) bl changes = (Next v, tr)"
    and "hasAnyViolation v"
  shows "AddLabel (Repo_Owner_Login pre) (Repo_Name pre) (Number pre) (labels_InvalidOwners w)
           \<in> set (snd (handle w pre bl))
         \<and> (ghc_AddLabel w (Repo_Owner_Login pre) (Repo_Name pre) (Number pre)
               (labels_InvalidOwners w) = None
             \<longrightarrow> filter isNotification (snd (handle w pre bl))
                   = [AddLabel (Repo_Owner_Login pre) (Repo_Name pre) (Number pre)
                        (labels_InvalidOwners w),
                      CreateReview (Repo_Owner_Login pre) (Repo_Name pre) (Number pre)
                        (draftReview w pre v)])
         \<and> (ghc_AddLabel w (Repo_Owner_Login pre) (Repo_Name pre) (Number pre)
               (labels_InvalidOwners w) = Some err
             \<longrightarrow> fst (handle w pre bl) = Some err
                 \<and> filter isNotification (snd (handle w pre bl))
                     = [AddLabel (Repo_Owner_Login pre) (Repo_Name pre) (Number pre)
                          (labels_InvalidOwners w)])
         \<and> (\<exists>entries. mset entries = mset (wrongOwnersFiles v)
                \<and> Comments (draftReview w pre v)
                    = map (\<lambda>entry. \<lparr>Path = fst entry, Position = line (snd entry),
                                     Body = message (snd entry)\<rparr>) entries
                      @ (if wrongOwnersAliasesFilePresent v then
                           [\<lparr>Path = ownersAliasesFileName,
                             Position = line (ownersAliasesFileError v),
                             Body = message (ownersAliasesFileError v)\<rparr>]
                         else []))
         \<and> distinct (map fst (wrongOwnersFiles v))
         \<and> ReviewBody (draftReview w pre v)
             = plugins_FormatResponseRaw w (PullRequest_Body pre) (PullRequest_HTMLURL pre)
                 (PullRequest_User_Login pre) (reviewResponse w (Repo_Owner_Login pre) v)
         \<and> (0 < length (wrongOwnersFiles v) \<longrightarrow>
              sublist (''- '' @ showNat (length (wrongOwnersFiles v)) @ '' invalid OWNERS file'')
                (reviewResponse w (Repo_Owner_Login pre) v))
         \<and> (wrongOwnersAliasesFilePresent v \<longrightarrow>
              sublist ''- An invalid OWNERS_ALIASES file''
                (reviewResponse w (Repo_Owner_Login pre) v))
         \<and> (\<forall>u \<in> nonMembers v.
              sublist (''  - @'' @ u) (reviewResponse w (Repo_Owner_Login pre) v))"
proof -
  have wf: "wellFormed v" using wellFormed_checkFiles [OF assms(5)] .
  note d = handle_decides_notifications [OF assms(1-5)]
  have 0: "AddLabel (Repo_Owner_Login pre) (Repo_Name pre) (Number pre) (labels_InvalidOwners w)
             \<in> set (snd (handle w pre bl))"
    using handle_calls_AddLabel [OF assms] .
  have 1: "ghc_AddLabel w (Repo_Owner_Login pre) (Repo_Name pre) (Number pre)
               (labels_InvalidOwners w) = None
             \<longrightarrow> filter isNotification (snd (handle w pre bl))
                   = [AddLabel (Repo_Owner_Login pre) (Repo_Name pre) (Number pre)
                        (labels_InvalidOwners w),
                      CreateReview (Repo_Owner_Login pre) (Repo_Name pre) (Number pre)
                        (draftReview w pre v)]"
    using d react_violation [OF assms(6), of w pre] by simp
  have 2: "ghc_AddLabel w (Repo_Owner_Login pre) (Repo_Name pre) (Number pre)
               (labels_InvalidOwners w) = Some err
             \<longrightarrow> fst (handle w pre bl) = Some err
                 \<and> filter isNotification (snd (handle w pre bl))
                     = [AddLabel (Repo_Owner_Login pre) (Repo_Name pre) (Number pre)
                          (labels_InvalidOwners w)]"
    using d react_violation_label_fails [OF assms(6), of w pre err] by auto
  have 3: "\<exists>entries. mset entries = mset (wrongOwnersFiles v)
                \<and> Comments (draftReview w pre v)
                    = map (\<lambda>entry. \<lparr>Path = fst entry, Position = line (snd entry),
                                     Body = message (snd entry)\<rparr>) entries
                      @ (if wrongOwnersAliasesFilePresent v then
                           [\<lparr>Path = ownersAliasesFileName,
                             Position = line (ownersAliasesFileError v),
                             Body = message (ownersAliasesFileError v)\<rparr>]
                         else [])"
    using reviewComments_entries [of v w] by (simp add: draftReview_def)
  have 4: "distinct (map fst (wrongOwnersFiles v))" using wf by (simp add: wellFormed_def)
  have 5: "ReviewBody (draftReview w pre v)
             = plugins_FormatResponseRaw w (PullRequest_Body pre) (PullRequest_HTMLURL pre)
                 (PullRequest_User_Login pre) (reviewResponse w (Repo_Owner_Login pre) v)"
    by (simp add: draftReview_def)
  have 8: "\<forall>u \<in> nonMembers v.
              sublist (''  - @'' @ u) (reviewResponse w (Repo_Owner_Login pre) v)"
    using wf response_user by (auto simp: wellFormed_def)
  show ?thesis
    using 0 1 2 3 4 5 8 response_count response_aliases by blast
qed

lemma violation_run_checked:
  "fst (checkFiles (exampleWorld ''broken'' violationChanges) ''/r'' ''kubernetes''
          exampleBlackList violationChanges) = Next violationVars"
  by code_simp

lemma violationVars_violation: "hasAnyViolation violationVars"
  by (simp add: hasAnyViolation_def violationVars_def)

lemma showNat_2: "showNat 2 = ''2''"
  by code_simp

text \<open>
  The pull request with the broken alias file is such a run, in a world where
  \<open>AddLabel\<close> succeeds and in one where it fails: three inline comments, the one
  for the alias file last, and a response that counts two invalid OWNERS files,
  names the alias file and lists \<open>eve\<close>.
\<close>

theorem handle_violation_review_witness:
  "AddLabel ''kubernetes'' ''test-infra'' 7 ''do-not-merge/invalid-owners-file''
     \<in> set (snd (handle (exampleWorld ''broken'' violationChanges) examplePre exampleBlackList))
   \<and> filter isNotification
        (snd (handle (exampleWorld ''broken'' violationChanges) examplePre exampleBlackList))
       = [AddLabel ''kubernetes'' ''test-infra'' 7 ''do-not-merge/invalid-owners-file'',
          CreateReview ''kubernetes'' ''test-infra'' 7
            (draftReview (exampleWorld ''broken'' violationChanges) examplePre violationVars)]
   \<and> fst (handle (labelFails (exampleWorld ''broken'' violationChanges)) examplePre
             exampleBlackList) = Some ''403 Forbidden''
   \<and> filter isNotification
        (snd (handle (labelFails (exampleWorld ''broken'' violationChanges)) examplePre
                exampleBlackList))
       = [AddLabel ''kubernetes'' ''test-infra'' 7 ''do-not-merge/invalid-owners-file'']
   \<and> (\<exists>first second.
         mset [first, second]
           = mset [\<lparr>Path = ''a/OWNERS'', Position = 5,
                    Body = ''Cannot parse file: yaml: line 4: did not find expected key.''\<rparr>,
                   \<lparr>Path = ''b/OWNERS'', Position = 1,
                    Body = ''File contains blacklisted labels: [priority/critical-urgent].''\<rparr>]
         \<and> Comments (draftReview (exampleWorld ''broken'' violationChanges) examplePre
                        violationVars)
             = [first, second,
                \<lparr>Path = ''OWNERS_ALIASES'', Position = 1,
                 Body = ''Cannot parse file: yaml: line 2: mapping values are not allowed.''\<rparr>])
   \<and> sublist ''- 2 invalid OWNERS file''
         (reviewResponse (exampleWorld ''broken'' violationChanges) ''kubernetes'' violationVars)
   \<and> sublist ''- An invalid OWNERS_ALIASES file''
         (reviewResponse (exampleWorld ''broken'' violationChanges) ''kubernetes'' violationVars)
   \<and> sublist ''  - @eve''
         (reviewResponse (exampleWorld ''broken'' violationChanges) ''kubernetes'' violationVars)"
proof -
  let ?w = "exampleWorld ''broken'' violationChanges"
  let ?f = "labelFails (exampleWorld ''broken'' violationChanges)"
  have 1: "ghc_GetPullRequestChanges ?w (Repo_Owner_Login examplePre) (Repo_Name examplePre)
             (Number examplePre) = Inr violationChanges"
    and 3: "gc_Clone ?w (Repo_FullName examplePre) = Inr ''/r''"
    and 4: "r_CheckoutPullRequest ?w (Number examplePre) = None"
    by (simp_all add: exampleWorld_def)
  have f1: "ghc_GetPullRequestChanges ?f (Repo_Owner_Login examplePre) (Repo_Name examplePre)
              (Number examplePre) = Inr violationChanges"
    and f3: "gc_Clone ?f (Repo_FullName examplePre) = Inr ''/r''"
    and f4: "r_CheckoutPullRequest ?f (Number examplePre) = None"
    by (simp_all add: labelFails_def exampleWorld_def)
  have 2: "0 < length (listOwnersFiles violationChanges)
           \<or> snd (scanOwnersAliases violationChanges)"
    by code_simp
  have o: "Repo_Owner_Login examplePre = ''kubernetes''" by (simp add: examplePre_def)
  have 5: "checkFiles ?w ''/r'' (Repo_Owner_Login examplePre) exampleBlackList violationChanges
             = (Next violationVars,
                snd (checkFiles ?w ''/r'' (Repo_Owner_Login examplePre) exampleBlackList
                       violationChanges))"
    using violation_run_checked by (intro pair_of_fst) (simp add: examplePre_def)
  have f5: "checkFiles ?f ''/r'' (Repo_Owner_Login examplePre) exampleBlackList violationChanges
              = (Next violationVars,
                 snd (checkFiles ?f ''/r'' (Repo_Owner_Login examplePre) exampleBlackList
                        violationChanges))"
    unfolding o by (rule pair_of_fst) code_simp
  have 7: "ghc_AddLabel ?w (Repo_Owner_Login examplePre) (Repo_Name examplePre)
             (Number examplePre) (labels_InvalidOwners ?w) = None"
    by (simp add: exampleWorld_def)
  have f7: "ghc_AddLabel ?f (Repo_Owner_Login examplePre) (Repo_Name examplePre)
              (Number examplePre) (labels_InvalidOwners ?f) = Some ''403 Forbidden''"
    by (simp add: labelFails_def)
  note t = handle_violation_review [OF 1 2 3 4 5 violationVars_violation]
  note u = handle_violation_review
             [OF f1 2 f3 f4 f5 violationVars_violation, where err = "''403 Forbidden''"]
  have len: "length (wrongOwnersFiles violationVars) = 2" by (simp add: violationVars_def)
  have al: "wrongOwnersAliasesFilePresent violationVars" by (simp add: violationVars_def)
  have eve: "''eve'' \<in> nonMembers violationVars" by (simp add: violationVars_def)
  have z: "AddLabel ''kubernetes'' ''test-infra'' 7 ''do-not-merge/invalid-owners-file''
             \<in> set (snd (handle ?w examplePre exampleBlackList))"
    using t [THEN conjunct1] by (simp add: examplePre_def exampleWorld_def)
  have a: "filter isNotification (snd (handle ?w examplePre exampleBlackList))
     = [AddLabel ''kubernetes'' ''test-infra'' 7 ''do-not-merge/invalid-owners-file'',
        CreateReview ''kubernetes'' ''test-infra'' 7 (draftReview ?w examplePre violationVars)]"
    using t [THEN conjunct2, THEN conjunct1] 7 by (simp add: examplePre_def exampleWorld_def)
  have b: "fst (handle ?f examplePre exampleBlackList) = Some ''403 Forbidden''
           \<and> filter isNotification (snd (handle ?f examplePre exampleBlackList))
               = [AddLabel ''kubernetes'' ''test-infra'' 7 ''do-not-merge/invalid-owners-file'']"
    using u [THEN conjunct2, THEN conjunct2, THEN conjunct1] f7
    by (simp add: examplePre_def exampleWorld_def labelFails_def)
  from t [THEN conjunct2, THEN conjunct2, THEN conjunct2, THEN conjunct1]
  obtain entries where
    m: "mset entries = mset (wrongOwnersFiles violationVars)"
    and cs: "Comments (draftReview ?w examplePre violationVars)
               = map (\<lambda>entry. \<lparr>Path = fst entry, Position = line (snd entry),
                                Body = message (snd entry)\<rparr>) entries
                 @ (if wrongOwnersAliasesFilePresent violationVars then
                      [\<lparr>Path = ownersAliasesFileName,
                        Position = line (ownersAliasesFileError violationVars),
                        Body = message (ownersAliasesFileError violationVars)\<rparr>]
                    else [])"
    by blast
  have "size (mset entries) = size (mset (wrongOwnersFiles violationVars))"
    by (simp only: m)
  then have "length entries = Suc (Suc 0)" using len by simp
  then obtain e1 e2 where e: "entries = [e1, e2]"
    by (auto simp: length_Suc_conv)
  let ?c = "\<lambda>entry. \<lparr>Path = fst entry, Position = line (snd entry), Body = message (snd entry)\<rparr>"
  have r: "map ?c (wrongOwnersFiles violationVars)
             = [\<lparr>Path = ''a/OWNERS'', Position = 5,
                 Body = ''Cannot parse file: yaml: line 4: did not find expected key.''\<rparr>,
                \<lparr>Path = ''b/OWNERS'', Position = 1,
                 Body = ''File contains blacklisted labels: [priority/critical-urgent].''\<rparr>]"
    by (simp add: violationVars_def)
  have g0: "mset (map ?c entries) = mset (map ?c (wrongOwnersFiles violationVars))"
    by (simp only: mset_map m)
  have g: "mset [?c e1, ?c e2]
               = mset [\<lparr>Path = ''a/OWNERS'', Position = 5,
                        Body = ''Cannot parse file: yaml: line 4: did not find expected key.''\<rparr>,
                       \<lparr>Path = ''b/OWNERS'', Position = 1,
                        Body = ''File contains blacklisted labels: [priority/critical-urgent].''\<rparr>]"
    using g0 unfolding e r by simp
  have h: "Comments (draftReview ?w examplePre violationVars)
             = [?c e1, ?c e2,
                \<lparr>Path = ''OWNERS_ALIASES'', Position = 1,
                 Body = ''Cannot parse file: yaml: line 2: mapping values are not allowed.''\<rparr>]"
    using cs al unfolding e by (simp add: violationVars_def ownersAliasesFileName_def)
  have c: "\<exists>first second.
         mset [first, second]
           = mset [\<lparr>Path = ''a/OWNERS'', Position = 5,
                    Body = ''Cannot parse file: yaml: line 4: did not find expected key.''\<rparr>,
                   \<lparr>Path = ''b/OWNERS'', Position = 1,
                    Body = ''File contains blacklisted labels: [priority/critical-urgent].''\<rparr>]
         \<and> Comments (draftReview ?w examplePre violationVars)
             = [first, second,
                \<lparr>Path = ''OWNERS_ALIASES'', Position = 1,
                 Body = ''Cannot parse file: yaml: line 2: mapping values are not allowed.''\<rparr>]"
    using g h by blast
  have d: "sublist ''- 2 invalid OWNERS file'' (reviewResponse ?w ''kubernetes'' violationVars)"
    using t [THEN conjunct2, THEN conjunct2, THEN conjunct2, THEN conjunct2, THEN conjunct2,
             THEN conjunct2, THEN conjunct1]
    unfolding len o showNat_2 by simp
  have e': "sublist ''- An invalid OWNERS_ALIASES file''
             (reviewResponse ?w ''kubernetes'' violationVars)"
    using t [THEN conjunct2, THEN conjunct2, THEN conjunct2, THEN conjunct2, THEN conjunct2,
             THEN conjunct2, THEN conjunct2, THEN conjunct1] al
    unfolding o by simp
  have f: "sublist ''  - @eve'' (reviewResponse ?w ''kubernetes'' violationVars)"
    using t [THEN conjunct2, THEN conjunct2, THEN conjunct2, THEN conjunct2, THEN conjunct2,
             THEN conjunct2, THEN conjunct2, THEN conjunct2] eve
    unfolding o by auto
  show ?thesis using z a b c d e' f by blast
qed

text \<open>
  C7, as the claim has it, fails where \<open>AddLabel\<close> fails: the run has found
  violations, and it returns the error of \<open>AddLabel\<close> without posting a review.
\<close>

theorem handle_label_failure_counterexample:
  "fst (checkFiles (labelFails (exampleWorld ''broken'' violationChanges)) ''/r'' ''kubernetes''
          exampleBlackList violationChanges) = Next violationVars
   \<and> hasAnyViolation violationVars
   \<and> handle (labelFails (exampleWorld ''broken'' violationChanges)) examplePre exampleBlackList
       = (Some ''403 Forbidden'',
          [GetPullRequestChanges ''kubernetes'' ''test-infra'' 7,
           Clone ''kubernetes/test-infra'', CheckoutPullRequest 7,
           ReadFile ''/r/OWNERS_ALIASES'',
           HttpGet ''https://raw.githubusercontent.com/kubernetes/org/master/config/kubernetes/org.yaml'',
           ReadFile ''/r/a/OWNERS'', ReadFile ''/r/b/OWNERS'', ReadFile ''/r/c/OWNERS'',
           HttpGet ''https://raw.githubusercontent.com/kubernetes/org/master/config/kubernetes/org.yaml'',
           AddLabel ''kubernetes'' ''test-infra'' 7 ''do-not-merge/invalid-owners-file'',
           CleanRepo])"
proof -
  have c: "fst (checkFiles (labelFails (exampleWorld ''broken'' violationChanges)) ''/r''
                  ''kubernetes'' exampleBlackList violationChanges) = Next violationVars"
    by code_simp
  have h: "handle (labelFails (exampleWorld ''broken'' violationChanges)) examplePre
             exampleBlackList
       = (Some ''403 Forbidden'',
          [GetPullRequestChanges ''kubernetes'' ''test-infra'' 7,
           Clone ''kubernetes/test-infra'', CheckoutPullRequest 7,
           ReadFile ''/r/OWNERS_ALIASES'',
           HttpGet ''https://raw.githubusercontent.com/kubernetes/org/master/config/kubernetes/org.yaml'',
           ReadFile ''/r/a/OWNERS'', ReadFile ''/r/b/OWNERS'', ReadFile ''/r/c/OWNERS'',
           HttpGet ''https://raw.githubusercontent.com/kubernetes/org/master/config/kubernetes/org.yaml'',
           AddLabel ''kubernetes'' ''test-infra'' 7 ''do-not-merge/invalid-owners-file'',
           CleanRepo])"
    by code_simp
  show ?thesis using c h violationVars_violation by simp
qed

subsection \<open>Calls on GitHub that fail\<close>







subsection \<open>The changed files that are kept\<close>

lemma scanOwnersAliases_acc:
  "snd (foldl (\<lambda>acc change. if Filename change = ownersAliasesFileName then (change, True)
                              else acc) a cs)
     = (snd a \<or> (\<exists>c \<in> set cs. Filename c = ownersAliasesFileName))"
  by (induction cs arbitrary: a) auto

lemma scanOwnersAliases_found:
  "snd (scanOwnersAliases changes) = (\<exists>c \<in> set changes. Filename c = ownersAliasesFileName)"
  by (simp add: scanOwnersAliases_def scanOwnersAliases_acc)

lemma listOwnersFiles_empty:
  "(length (listOwnersFiles changes) = 0)
     = (\<forall>c \<in> set changes. Base (Filename c) \<noteq> ownersFileName)"
  by (auto simp: listOwnersFiles_def filter_empty_conv)

text \<open>
  C9, as the code has it. \<open>handle\<close> keeps the changed files whose base name is
  OWNERS, and takes the alias file as changed when a changed file is named exactly
  OWNERS_ALIASES, the alias file at the root of the repository. With neither, the run
  ends after listing the changes, with no call on the pull request; with either,
  it goes on to clone the repository.
\<close>

theorem handle_keeps_owners_files:
  "listOwnersFiles changes = filter (\<lambda>c. Base (Filename c) = ''OWNERS'') changes
   \<and> snd (scanOwnersAliases changes) = (\<exists>c \<in> set changes. Filename c = ''OWNERS_ALIASES'')
   \<and> (ghc_GetPullRequestChanges w (Repo_Owner_Login pre) (Repo_Name pre) (Number pre)
         = Inr changes
       \<and> (\<forall>c \<in> set changes.
             Base (Filename c) \<noteq> ''OWNERS'' \<and> Filename c \<noteq> ''OWNERS_ALIASES'')
       \<longrightarrow> handle w pre bl
             = (None,
                [GetPullRequestChanges (Repo_Owner_Login pre) (Repo_Name pre) (Number pre)]))
   \<and> (ghc_GetPullRequestChanges w (Repo_Owner_Login pre) (Repo_Name pre) (Number pre)
         = Inr changes
       \<and> (\<exists>c \<in> set changes.
             Base (Filename c) = ''OWNERS'' \<or> Filename c = ''OWNERS_ALIASES'')
       \<longrightarrow> Clone (Repo_FullName pre) \<in> set (snd (handle w pre bl)))"
proof -
  have 1: "listOwnersFiles changes = filter (\<lambda>c. Base (Filename c) = ''OWNERS'') changes"
    by (simp add: listOwnersFiles_def ownersFileName_def)
  have 2: "snd (scanOwnersAliases changes)
             = (\<exists>c \<in> set changes. Filename c = ''OWNERS_ALIASES'')"
    using scanOwnersAliases_found [of changes] by (simp add: ownersAliasesFileName_def)
  have e: "(length (listOwnersFiles changes) = 0)
             = (\<forall>c \<in> set changes. Base (Filename c) \<noteq> ''OWNERS'')"
    using listOwnersFiles_empty [of changes] by (simp add: ownersFileName_def)
  have 3: "ghc_GetPullRequestChanges w (Repo_Owner_Login pre) (Repo_Name pre) (Number pre)
         = Inr changes
       \<and> (\<forall>c \<in> set changes.
             Base (Filename c) \<noteq> ''OWNERS'' \<and> Filename c \<noteq> ''OWNERS_ALIASES'')
       \<longrightarrow> handle w pre bl
             = (None,
                [GetPullRequestChanges (Repo_Owner_Login pre) (Repo_Name pre) (Number pre)])"
  proof (intro impI, elim conjE)
    assume g: "ghc_GetPullRequestChanges w (Repo_Owner_Login pre) (Repo_Name pre) (Number pre)
                 = Inr changes"
      and n: "\<forall>c \<in> set changes.
                Base (Filename c) \<noteq> ''OWNERS'' \<and> Filename c \<noteq> ''OWNERS_ALIASES''"
    have "length (listOwnersFiles changes) = 0" using n e by blast
    moreover have "\<not> snd (scanOwnersAliases changes)" using n 2 by blast
    ultimately show "handle w pre bl
             = (None,
                [GetPullRequestChanges (Repo_Owner_Login pre) (Repo_Name pre) (Number pre)])"
      using g by (simp add: handle_def Let_def)
  qed
  have 4: "ghc_GetPullRequestChanges w (Repo_Owner_Login pre) (Repo_Name pre) (Number pre)
         = Inr changes
       \<and> (\<exists>c \<in> set changes.
             Base (Filename c) = ''OWNERS'' \<or> Filename c = ''OWNERS_ALIASES'')
       \<longrightarrow> Clone (Repo_FullName pre) \<in> set (snd (handle w pre bl))"
  proof (intro impI, elim conjE)
    assume g: "ghc_GetPullRequestChanges w (Repo_Owner_Login pre) (Repo_Name pre) (Number pre)
                 = Inr changes"
      and n: "\<exists>c \<in> set changes.
                Base (Filename c) = ''OWNERS'' \<or> Filename c = ''OWNERS_ALIASES''"
    have "\<not> (length (listOwnersFiles changes) = 0 \<and> \<not> snd (scanOwnersAliases changes))"
      using n e 2 by blast
    then show "Clone (Repo_FullName pre) \<in> set (snd (handle w pre bl))"
      using g
      by (auto simp: handle_def Let_def deferClean_def split: sum.splits option.splits step.splits)
  qed
  show ?thesis using 1 2 3 4 by blast
qed

text \<open>
  A pull request that changes no such file, and the clean pull request, which does.
\<close>

theorem handle_keeps_owners_files_witness:
  "handle (exampleWorld ''aliases'' [changed ''README.md'', changed ''docs/OWNERS_ALIASES''])
     examplePre exampleBlackList
     = (None, [GetPullRequestChanges ''kubernetes'' ''test-infra'' 7])
   \<and> Clone ''kubernetes/test-infra''
       \<in> set (snd (handle (exampleWorld ''aliases'' cleanChanges) examplePre exampleBlackList))"
proof -
  let ?cs = "[changed ''README.md'', changed ''docs/OWNERS_ALIASES'']"
  have g: "ghc_GetPullRequestChanges (exampleWorld ''aliases'' ?cs) (Repo_Owner_Login examplePre)
             (Repo_Name examplePre) (Number examplePre) = Inr ?cs"
    by (simp add: exampleWorld_def)
  have n: "\<forall>c \<in> set ?cs. Base (Filename c) \<noteq> ''OWNERS'' \<and> Filename c \<noteq> ''OWNERS_ALIASES''"
    by code_simp
  have g2: "ghc_GetPullRequestChanges (exampleWorld ''aliases'' cleanChanges)
              (Repo_Owner_Login examplePre) (Repo_Name examplePre) (Number examplePre)
              = Inr cleanChanges"
    by (simp add: exampleWorld_def)
  have n2: "\<exists>c \<in> set cleanChanges.
              Base (Filename c) = ''OWNERS'' \<or> Filename c = ''OWNERS_ALIASES''"
    by code_simp
  have a: "handle (exampleWorld ''aliases'' ?cs) examplePre exampleBlackList
             = (None, [GetPullRequestChanges ''kubernetes'' ''test-infra'' 7])"
    using handle_keeps_owners_files
            [of ?cs "exampleWorld ''aliases'' ?cs" examplePre exampleBlackList,
             THEN conjunct2, THEN conjunct2, THEN conjunct1] g n
    by (simp add: examplePre_def)
  have b: "Clone ''kubernetes/test-infra''
             \<in> set (snd (handle (exampleWorld ''aliases'' cleanChanges) examplePre
                            exampleBlackList))"
    using handle_keeps_owners_files
            [of cleanChanges "exampleWorld ''aliases'' cleanChanges" examplePre exampleBlackList,
             THEN conjunct2, THEN conjunct2, THEN conjunct2] g2 n2
    by (simp add: examplePre_def)
  show ?thesis using a b by blast
qed

text \<open>
  C9, as the claim has it, fails on \<open>docs/OWNERS_ALIASES\<close>: its base name is the
  name of the alias file, and the file is not kept; the run ends with no action.
\<close>

theorem nested_aliases_file_counterexample:
  "Base ''docs/OWNERS_ALIASES'' = ownersAliasesFileName
   \<and> snd (scanOwnersAliases [changed ''docs/OWNERS_ALIASES'']) = False
   \<and> handle (exampleWorld ''aliases'' [changed ''docs/OWNERS_ALIASES'']) examplePre
        exampleBlackList
       = (None, [GetPullRequestChanges ''kubernetes'' ''test-infra'' 7])"
  by code_simp

subsection \<open>Reads that fail\<close>

lemma getMembersForOrg_reads: "ReadFile p \<notin> set (snd (getMembersForOrg w org))"
  by (simp add: getMembersForOrg_def Let_def split: sum.splits option.splits)

lemma ensureMembers_reads: "ReadFile p \<notin> set (snd (ensureMembers w org v))"
  using getMembersForOrg_reads [of p w org]
  by (auto simp: ensureMembers_def split: if_splits prod.splits option.splits)

lemma patchLine_reads: "ReadFile p \<notin> set (snd (patchLine w e patch f))"
  by (simp add: patchLine_def Let_def split: sum.splits option.splits)

lemma checkRoles_reads: "ReadFile p \<notin> set (snd (checkRoles w org bl c roles v))"
  using ensureMembers_reads [of p w org v]
  by (simp add: checkRoles_def Let_def split: step.splits)

lemma react_reads: "ReadFile p \<notin> set (snd (react w pre v))"
  by (auto simp: react_def Let_def reviewLogs_def split: option.splits)

lemma checkOwnersAliases_read_fails:
  assumes "ReadFile p \<in> set (snd (checkOwnersAliases w dir org c v))"
    and "ioutil_ReadFile w p = Inl err"
  shows "fst (checkOwnersAliases w dir org c v) = Return None
         \<and> LogError err (''Failed to read '' @ p @ ''.'')
             \<in> set (snd (checkOwnersAliases w dir org c v))"
proof (cases "ioutil_ReadFile w (Join [dir, ownersAliasesFileName])")
  case (Inl e)
  then have "p = Join [dir, ownersAliasesFileName]"
    using assms(1) by (simp add: checkOwnersAliases_def Let_def)
  with Inl assms(2) show ?thesis by (simp add: checkOwnersAliases_def Let_def)
next
  case (Inr b)
  then have "p = Join [dir, ownersAliasesFileName]"
    using assms(1) patchLine_reads ensureMembers_reads
    by (auto simp: checkOwnersAliases_def Let_def split: option.splits step.splits)
  with Inr assms(2) show ?thesis by simp
qed

lemma loadOwnersAliases_read_fails:
  assumes "ReadFile p \<in> set (snd (loadOwnersAliases w dir v))"
    and "ioutil_ReadFile w p = Inl err"
  shows "fst (loadOwnersAliases w dir v) = Return None
         \<and> LogError err (''Failed to read '' @ p @ ''.'')
             \<in> set (snd (loadOwnersAliases w dir v))"
  using assms by (auto simp: loadOwnersAliases_def Let_def split: sum.splits)

lemma checkOwnersFile_read_fails:
  assumes "ReadFile p \<in> set (snd (checkOwnersFile w dir org bl c v))"
    and "ioutil_ReadFile w p = Inl err"
  shows "fst (checkOwnersFile w dir org bl c v) = Return None
         \<and> LogError err (''Failed to read '' @ p @ ''.'')
             \<in> set (snd (checkOwnersFile w dir org bl c v))"
proof (cases "ioutil_ReadFile w (Join [dir, Filename c])")
  case (Inl e)
  then have "p = Join [dir, Filename c]"
    using assms(1) by (simp add: checkOwnersFile_def Let_def)
  with Inl assms(2) show ?thesis by (simp add: checkOwnersFile_def Let_def)
next
  case (Inr b)
  then have "p = Join [dir, Filename c]"
    using assms(1) patchLine_reads checkRoles_reads
    by (auto simp: checkOwnersFile_def Let_def split: sum.splits)
  with Inr assms(2) show ?thesis by simp
qed

lemma checkOwnersFiles_read_fails:
  "ReadFile p \<in> set (snd (checkOwnersFiles w dir org bl cs v)) \<Longrightarrow>
   ioutil_ReadFile w p = Inl err \<Longrightarrow>
   fst (checkOwnersFiles w dir org bl cs v) = Return None
   \<and> LogError err (''Failed to read '' @ p @ ''.'')
       \<in> set (snd (checkOwnersFiles w dir org bl cs v))"
proof (induction cs arbitrary: v)
  case Nil
  then show ?case by simp
next
  case (Cons c cs)
  obtain r t where s: "checkOwnersFile w dir org bl c v = (r, t)"
    by (cases "checkOwnersFile w dir org bl c v")
  show ?case
  proof (cases r)
    case (Return e)
    with s Cons.prems checkOwnersFile_read_fails [of p w dir org bl c v err]
    show ?thesis by simp
  next
    case (Next v1)
    have nf: "ReadFile p \<notin> set t"
    proof
      assume "ReadFile p \<in> set t"
      then have "fst (checkOwnersFile w dir org bl c v) = Return None"
        using checkOwnersFile_read_fails [of p w dir org bl c v err] s Cons.prems(2) by simp
      with s Next show False by simp
    qed
    with s Next Cons.prems(1)
    have "ReadFile p \<in> set (snd (checkOwnersFiles w dir org bl cs v1))"
      by (simp add: Let_def)
    from Cons.IH [OF this Cons.prems(2)] s Next show ?thesis by (simp add: Let_def)
  qed
qed

lemma checkFiles_read_fails:
  assumes "ReadFile p \<in> set (snd (checkFiles w dir org bl changes))"
    and "ioutil_ReadFile w p = Inl err"
  shows "fst (checkFiles w dir org bl changes) = Return None
         \<and> LogError err (''Failed to read '' @ p @ ''.'')
             \<in> set (snd (checkFiles w dir org bl changes))"
proof -
  define a where
    "a = (if snd (scanOwnersAliases changes) then
            checkOwnersAliases w dir org (fst (scanOwnersAliases changes)) initialVars
          else (Next initialVars, []))"
  show ?thesis
  proof (cases "fst a")
    case (Return e)
    then have "snd (scanOwnersAliases changes)"
      by (auto simp: a_def split: if_splits)
    with Return assms checkOwnersAliases_read_fails
           [of p w dir org "fst (scanOwnersAliases changes)" initialVars err]
    show ?thesis
      by (auto simp: checkFiles_def Let_def a_def)
  next
    case (Next v1)
    have nf: "ReadFile p \<notin> set (snd a)"
    proof
      assume in_a: "ReadFile p \<in> set (snd a)"
      then have "snd (scanOwnersAliases changes)"
        by (auto simp: a_def split: if_splits)
      with in_a have "fst a = Return None"
        using checkOwnersAliases_read_fails
                [of p w dir org "fst (scanOwnersAliases changes)" initialVars err] assms(2)
        by (simp add: a_def)
      with Next show False by simp
    qed
    show ?thesis
    proof (cases "0 < length (listOwnersFiles changes) \<and> \<not> snd (scanOwnersAliases changes)")
      case True
      with Next nf assms loadOwnersAliases_read_fails [of p w dir v1 err]
      show ?thesis
        by (auto simp: checkFiles_def Let_def a_def)
    next
      case False
      with Next nf assms
        checkOwnersFiles_read_fails [of p w dir org bl "listOwnersFiles changes" v1 err]
      show ?thesis
        by (auto simp: checkFiles_def Let_def a_def)
    qed
  qed
qed

lemma handle_reads:
  assumes "ReadFile p \<in> set (snd (handle w pre bl))"
  shows "\<exists>changes dir.
           ghc_GetPullRequestChanges w (Repo_Owner_Login pre) (Repo_Name pre) (Number pre)
             = Inr changes
           \<and> gc_Clone w (Repo_FullName pre) = Inr dir
           \<and> r_CheckoutPullRequest w (Number pre) = None
           \<and> \<not> (length (listOwnersFiles changes) = 0 \<and> \<not> snd (scanOwnersAliases changes))
           \<and> ReadFile p \<in> set (snd (checkFiles w dir (Repo_Owner_Login pre) bl changes))"
  using assms react_reads [of p w pre]
  by (auto simp: handle_def Let_def deferClean_def
      split: sum.splits option.splits step.splits if_splits)

text \<open>
  C5, as the code has it. When the changes of the pull request cannot be listed,
  \<open>handle\<close> returns the error, behind \<open>error getting PR changes\<close>, having made no
  other call. When a file it reads cannot be read, the run ends there: the failure
  is logged, no call is made on the pull request, and \<open>handle\<close> returns nil.
\<close>

theorem handle_io_failure:
  "(ghc_GetPullRequestChanges w (Repo_Owner_Login pre) (Repo_Name pre) (Number pre) = Inl err
    \<longrightarrow> handle w pre bl
          = (Some (''error getting PR changes: '' @ err),
             [GetPullRequestChanges (Repo_Owner_Login pre) (Repo_Name pre) (Number pre)]))
   \<and> (ReadFile p \<in> set (snd (handle w pre bl)) \<and> ioutil_ReadFile w p = Inl err
       \<longrightarrow> fst (handle w pre bl) = None
           \<and> filter isNotification (snd (handle w pre bl)) = []
           \<and> LogError err (''Failed to read '' @ p @ ''.'') \<in> set (snd (handle w pre bl)))"
proof -
  have 1: "ghc_GetPullRequestChanges w (Repo_Owner_Login pre) (Repo_Name pre) (Number pre)
             = Inl err
    \<longrightarrow> handle w pre bl
          = (Some (''error getting PR changes: '' @ err),
             [GetPullRequestChanges (Repo_Owner_Login pre) (Repo_Name pre) (Number pre)])"
    by (simp add: handle_def Let_def)
  have 2: "ReadFile p \<in> set (snd (handle w pre bl)) \<and> ioutil_ReadFile w p = Inl err
       \<longrightarrow> fst (handle w pre bl) = None
           \<and> filter isNotification (snd (handle w pre bl)) = []
           \<and> LogError err (''Failed to read '' @ p @ ''.'') \<in> set (snd (handle w pre bl))"
  proof (intro impI, elim conjE)
    assume r: "ReadFile p \<in> set (snd (handle w pre bl))"
      and f: "ioutil_ReadFile w p = Inl err"
    from handle_reads [OF r] obtain changes dir where
      g: "ghc_GetPullRequestChanges w (Repo_Owner_Login pre) (Repo_Name pre) (Number pre)
            = Inr changes"
      and c: "gc_Clone w (Repo_FullName pre) = Inr dir"
      and k: "r_CheckoutPullRequest w (Number pre) = None"
      and n: "\<not> (length (listOwnersFiles changes) = 0 \<and> \<not> snd (scanOwnersAliases changes))"
      and i: "ReadFile p \<in> set (snd (checkFiles w dir (Repo_Owner_Login pre) bl changes))"
      by blast
    note cf = checkFiles_read_fails [OF i f]
    have h: "handle w pre bl
               = deferClean w
                   (None,
                    [GetPullRequestChanges (Repo_Owner_Login pre) (Repo_Name pre) (Number pre),
                     Clone (Repo_FullName pre), CheckoutPullRequest (Number pre)]
                    @ snd (checkFiles w dir (Repo_Owner_Login pre) bl changes))"
      using g c k n cf by (auto simp: handle_def Let_def)
    show "fst (handle w pre bl) = None
           \<and> filter isNotification (snd (handle w pre bl)) = []
           \<and> LogError err (''Failed to read '' @ p @ ''.'') \<in> set (snd (handle w pre bl))"
      unfolding h deferClean_fst deferClean_notifications
      using cf checkFiles_trace [of w dir "Repo_Owner_Login pre" bl changes]
      by (simp add: deferClean_def)
  qed
  show ?thesis using 1 2 by blast
qed

text \<open>
  A world where the changes cannot be listed, and one where no file can be read.
\<close>

theorem handle_io_failure_witness:
  "handle (changesFail (exampleWorld ''aliases'' cleanChanges)) examplePre exampleBlackList
     = (Some ''error getting PR changes: 404 Not Found'',
        [GetPullRequestChanges ''kubernetes'' ''test-infra'' 7])
   \<and> fst (handle (readsFail (exampleWorld ''aliases'' cleanChanges)) examplePre exampleBlackList)
       = None
   \<and> filter isNotification
        (snd (handle (readsFail (exampleWorld ''aliases'' cleanChanges)) examplePre
                exampleBlackList)) = []
   \<and> LogError ''permission denied'' ''Failed to read /r/OWNERS_ALIASES.''
       \<in> set (snd (handle (readsFail (exampleWorld ''aliases'' cleanChanges)) examplePre
                      exampleBlackList))"
proof -
  let ?a = "changesFail (exampleWorld ''aliases'' cleanChanges)"
  let ?b = "readsFail (exampleWorld ''aliases'' cleanChanges)"
  have g: "ghc_GetPullRequestChanges ?a (Repo_Owner_Login examplePre) (Repo_Name examplePre)
             (Number examplePre) = Inl ''404 Not Found''"
    by (simp add: changesFail_def)
  have r: "ReadFile ''/r/OWNERS_ALIASES'' \<in> set (snd (handle ?b examplePre exampleBlackList))"
    by code_simp
  have f: "ioutil_ReadFile ?b ''/r/OWNERS_ALIASES'' = Inl ''permission denied''"
    by (simp add: readsFail_def)
  have a: "handle ?a examplePre exampleBlackList
             = (Some ''error getting PR changes: 404 Not Found'',
                [GetPullRequestChanges ''kubernetes'' ''test-infra'' 7])"
    using handle_io_failure [where w = ?a and pre = examplePre and err = "''404 Not Found''"
                               and bl = exampleBlackList, THEN conjunct1] g
    by (simp add: examplePre_def)
  have b: "fst (handle ?b examplePre exampleBlackList) = None
           \<and> filter isNotification (snd (handle ?b examplePre exampleBlackList)) = []
           \<and> LogError ''permission denied'' ''Failed to read /r/OWNERS_ALIASES.''
               \<in> set (snd (handle ?b examplePre exampleBlackList))"
    using handle_io_failure [where w = ?b and pre = examplePre and err = "''permission denied''"
                               and p = "''/r/OWNERS_ALIASES''" and bl = exampleBlackList,
                             THEN conjunct2] r f
    by simp
  show ?thesis using a b by blast
qed

text \<open>
  C5, as the claim has it, fails where the alias file cannot be read: \<open>handle\<close>
  returns nil, not an error.
\<close>

theorem handle_read_failure_counterexample:
  "ioutil_ReadFile (readsFail (exampleWorld ''aliases'' cleanChanges)) ''/r/OWNERS_ALIASES''
     = Inl ''permission denied''
   \<and> handle (readsFail (exampleWorld ''aliases'' cleanChanges)) examplePre exampleBlackList
       = (None,
          [GetPullRequestChanges ''kubernetes'' ''test-infra'' 7,
           Clone ''kubernetes/test-infra'', CheckoutPullRequest 7,
           ReadFile ''/r/OWNERS_ALIASES'',
           LogError ''permission denied'' ''Failed to read /r/OWNERS_ALIASES.'',
           CleanRepo])"
proof -
  have f: "ioutil_ReadFile (readsFail (exampleWorld ''aliases'' cleanChanges))
             ''/r/OWNERS_ALIASES'' = Inl ''permission denied''"
    by (simp add: readsFail_def)
  have h: "handle (readsFail (exampleWorld ''aliases'' cleanChanges)) examplePre exampleBlackList
       = (None,
          [GetPullRequestChanges ''kubernetes'' ''test-infra'' 7,
           Clone ''kubernetes/test-infra'', CheckoutPullRequest 7,
           ReadFile ''/r/OWNERS_ALIASES'',
           LogError ''permission denied'' ''Failed to read /r/OWNERS_ALIASES.'',
           CleanRepo])"
    by code_simp
  show ?thesis using f h by simp
qed

subsection \<open>One OWNERS file\<close>

lemma recordWrong_fields:
  "nonMembers (recordWrong f n m v) = nonMembers v"
  "members (recordWrong f n m v) = members v"
  "repoAliases (recordWrong f n m v) = repoAliases v"
  "map_of (wrongOwnersFiles (recordWrong f n m v)) f = Some \<lparr>line = n, message = m\<rparr>"
  by (simp_all add: recordWrong_def update_conv)

lemma checkRoles_blacklisted:
  "HasAny (set (Labels roles)) bl \<Longrightarrow>
   checkRoles w org bl c roles v
     = (Next (recordWrong (Filename c) 1
                (''File contains blacklisted labels: ''
                   @ showStrings (sorted_list_of_set (set (Labels roles) \<inter> set bl)) @ ''.'') v),
        [])"
  by (simp add: checkRoles_def)

lemma checkRoles_unapproved:
  "\<not> HasAny (set (Labels roles)) bl \<Longrightarrow> Dir (Filename c) = ''.'' \<Longrightarrow> Approvers roles = [] \<Longrightarrow>
   checkRoles w org bl c roles v
     = (Next (recordWrong (Filename c) 1
                ''No approvers defined in this root directory OWNERS file.'' v),
        [])"
  by (simp add: checkRoles_def ownersFileName_def)

lemma checkRoles_passed:
  assumes "\<not> HasAny (set (Labels roles)) bl"
    and "\<not> (Dir (Filename c) = ''.'' \<and> Approvers roles = [])"
    and "checkRoles w org bl c roles v = (Next v', tr)"
  shows "v' = v\<lparr>nonMembers := nonMembers v \<union>
                  getNonMembersFromLists (repoAliases v) (members v)
                    [Approvers roles, Reviewers roles, RequiredReviewers roles]\<rparr>"
proof -
  obtain r t where e: "ensureMembers w org v = (r, t)" by (cases "ensureMembers w org v")
  with assms obtain v1 where r: "r = Next v1"
    by (cases r) (auto simp: checkRoles_def Let_def)
  have "v1 = v" using ensureMembers_Next e r by blast
  with assms e r show ?thesis by (auto simp: checkRoles_def Let_def)
qed

lemma checkRoles_no_parse_error:
  assumes "checkRoles w org bl c roles v = (Next v', tr)"
  shows "wrongOwnersFiles v' = wrongOwnersFiles v
         \<or> (\<exists>m. map_of (wrongOwnersFiles v') (Filename c) = Some m
                \<and> \<not> prefix ''Cannot parse file'' (message m))"
proof (cases "HasAny (set (Labels roles)) bl")
  case True
  from assms [unfolded checkRoles_blacklisted [OF True]] show ?thesis
    by (auto simp: recordWrong_fields)
next
  case False
  show ?thesis
  proof (cases "Dir (Filename c) = ''.'' \<and> Approvers roles = []")
    case True
    then have "checkRoles w org bl c roles v
                 = (Next (recordWrong (Filename c) 1
                            ''No approvers defined in this root directory OWNERS file.'' v),
                    [])"
      using checkRoles_unapproved [OF False] by blast
    with assms show ?thesis
      by (auto simp: recordWrong_fields)
  next
    case f: False
    from checkRoles_passed [OF False f assms] show ?thesis by simp
  qed
qed

lemma parseOwners_flat:
  "repoowners_ParseSimpleConfig w b = Inr simple \<Longrightarrow> \<not> Empty simple \<Longrightarrow>
   parseOwners w b = Inr simple"
  by (simp add: parseOwners_def)

lemma parseOwners_fallback:
  "(case repoowners_ParseSimpleConfig w b of Inl e \<Rightarrow> True | Inr s \<Rightarrow> Empty s) \<Longrightarrow>
   parseOwners w b = parseFull w b"
  by (simp add: parseOwners_def split: sum.splits)

lemma checkOwnersFile_records:
  assumes "checkOwnersFile w dir org bl c v = (Next v', t)"
  shows "\<exists>b. ioutil_ReadFile w (Join [dir, Filename c]) = Inr b
             \<and> (case parseOwners w b of
                   Inl err \<Rightarrow>
                     (\<exists>n. wrongOwnersFiles v'
                            = AList.update (Filename c)
                                \<lparr>line = n, message = ''Cannot parse file: '' @ err @ ''.''\<rparr>
                                (wrongOwnersFiles v))
                 | Inr roles \<Rightarrow>
                     wrongOwnersFiles v' = wrongOwnersFiles v
                     \<or> (\<exists>n m. wrongOwnersFiles v'
                                 = AList.update (Filename c) \<lparr>line = n, message = m\<rparr>
                                     (wrongOwnersFiles v)
                               \<and> \<not> prefix ''Cannot parse file'' m))"
proof (cases "ioutil_ReadFile w (Join [dir, Filename c])")
  case (Inl e)
  with assms show ?thesis by (simp add: checkOwnersFile_def Let_def)
next
  case (Inr b)
  show ?thesis
  proof (cases "parseOwners w b")
    case (Inl err)
    with Inr assms show ?thesis
      by (auto simp: checkOwnersFile_def Let_def recordWrong_def)
  next
    case roles: (Inr r)
    have cr: "checkRoles w org bl c r v = (Next v', snd (checkRoles w org bl c r v))"
      using assms Inr roles by (intro pair_of_fst) (auto simp: checkOwnersFile_def Let_def)
    have "wrongOwnersFiles v' = wrongOwnersFiles v
          \<or> (\<exists>n m. wrongOwnersFiles v'
                      = AList.update (Filename c) \<lparr>line = n, message = m\<rparr>
                          (wrongOwnersFiles v)
                    \<and> \<not> prefix ''Cannot parse file'' m)"
    proof (cases "HasAny (set (Labels r)) bl")
      case True
      define M where
        "M = ''File contains blacklisted labels: ''
             @ showStrings (sorted_list_of_set (set (Labels r) \<inter> set bl)) @ ''.''"
      have "v' = recordWrong (Filename c) 1 M v"
        using cr [unfolded checkRoles_blacklisted [OF True]] by (simp add: M_def)
      then have "wrongOwnersFiles v'
                   = AList.update (Filename c) \<lparr>line = 1, message = M\<rparr> (wrongOwnersFiles v)"
        by (simp add: recordWrong_def)
      moreover have "\<not> prefix ''Cannot parse file'' M" by (simp add: M_def)
      ultimately show ?thesis by blast
    next
      case False
      show ?thesis
      proof (cases "Dir (Filename c) = ''.'' \<and> Approvers r = []")
        case True
        define M where "M = ''No approvers defined in this root directory OWNERS file.''"
        have "checkRoles w org bl c r v = (Next (recordWrong (Filename c) 1 M v), [])"
          using checkRoles_unapproved [OF False] True by (simp add: M_def)
        with cr have "v' = recordWrong (Filename c) 1 M v" by simp
        then have "wrongOwnersFiles v'
                     = AList.update (Filename c) \<lparr>line = 1, message = M\<rparr> (wrongOwnersFiles v)"
          by (simp add: recordWrong_def)
        moreover have "\<not> prefix ''Cannot parse file'' M" by (simp add: M_def)
        ultimately show ?thesis by blast
      next
        case f: False
        from checkRoles_passed [OF False f cr] show ?thesis by simp
      qed
    qed
    with Inr roles show ?thesis by simp
  qed
qed

lemma checkOwnersFile_keeps_keys:
  assumes "checkOwnersFile w dir org bl c v = (Next v', t)"
    and "map_of (wrongOwnersFiles v) k \<noteq> None"
  shows "map_of (wrongOwnersFiles v') k \<noteq> None"
proof -
  from checkOwnersFile_records [OF assms(1)] obtain b where
    p: "case parseOwners w b of
          Inl err \<Rightarrow>
            (\<exists>n. wrongOwnersFiles v'
                   = AList.update (Filename c)
                       \<lparr>line = n, message = ''Cannot parse file: '' @ err @ ''.''\<rparr>
                       (wrongOwnersFiles v))
        | Inr roles \<Rightarrow>
            wrongOwnersFiles v' = wrongOwnersFiles v
            \<or> (\<exists>n m. wrongOwnersFiles v'
                        = AList.update (Filename c) \<lparr>line = n, message = m\<rparr>
                            (wrongOwnersFiles v)
                      \<and> \<not> prefix ''Cannot parse file'' m)"
    by blast
  have "wrongOwnersFiles v' = wrongOwnersFiles v
        \<or> (\<exists>e. wrongOwnersFiles v' = AList.update (Filename c) e (wrongOwnersFiles v))"
    using p by (cases "parseOwners w b") auto
  with assms(2) show ?thesis by (auto simp: update_conv)
qed

lemma checkOwnersFiles_keeps_keys:
  "checkOwnersFiles w dir org bl cs v = (Next v', tr) \<Longrightarrow>
   map_of (wrongOwnersFiles v) k \<noteq> None \<Longrightarrow> map_of (wrongOwnersFiles v') k \<noteq> None"
proof (induction cs arbitrary: v tr)
  case Nil
  then show ?case by simp
next
  case (Cons c cs)
  obtain r t where s: "checkOwnersFile w dir org bl c v = (r, t)"
    by (cases "checkOwnersFile w dir org bl c v")
  with Cons.prems(1) obtain v1 where r: "r = Next v1" by (cases r) auto
  have k1: "map_of (wrongOwnersFiles v1) k \<noteq> None"
    using checkOwnersFile_keeps_keys [OF s [unfolded r] Cons.prems(2)] .
  obtain r2 t2 where s2: "checkOwnersFiles w dir org bl cs v1 = (r2, t2)"
    by (cases "checkOwnersFiles w dir org bl cs v1")
  with Cons.prems(1) s r have "r2 = Next v'" by (simp add: Let_def)
  from Cons.IH [OF s2 [unfolded this] k1] show ?case .
qed

text \<open>What the loop leaves for a file name is what a step on a change of that name wrote.\<close>

lemma checkOwnersFiles_records:
  "checkOwnersFiles w dir org bl cs v = (Next v', tr) \<Longrightarrow>
   map_of (wrongOwnersFiles v') k = Some e \<Longrightarrow>
   map_of (wrongOwnersFiles v) k = Some e
   \<or> (\<exists>b. ioutil_ReadFile w (Join [dir, k]) = Inr b
          \<and> (case parseOwners w b of
                Inl err \<Rightarrow> message e = ''Cannot parse file: '' @ err @ ''.''
              | Inr roles \<Rightarrow> \<not> prefix ''Cannot parse file'' (message e)))"
proof (induction cs arbitrary: v tr)
  case Nil
  then show ?case by simp
next
  case (Cons c cs)
  obtain r t where s: "checkOwnersFile w dir org bl c v = (r, t)"
    by (cases "checkOwnersFile w dir org bl c v")
  with Cons.prems(1) obtain v1 where r: "r = Next v1" by (cases r) auto
  obtain r2 t2 where s2: "checkOwnersFiles w dir org bl cs v1 = (r2, t2)"
    by (cases "checkOwnersFiles w dir org bl cs v1")
  with Cons.prems(1) s r have "r2 = Next v'" by (simp add: Let_def)
  from Cons.IH [OF s2 [unfolded this] Cons.prems(2)]
  show ?case
  proof
    assume e1: "map_of (wrongOwnersFiles v1) k = Some e"
    from checkOwnersFile_records [OF s [unfolded r]] obtain b where
      b: "ioutil_ReadFile w (Join [dir, Filename c]) = Inr b"
      and p: "case parseOwners w b of
                Inl err \<Rightarrow>
                  (\<exists>n. wrongOwnersFiles v1
                         = AList.update (Filename c)
                             \<lparr>line = n, message = ''Cannot parse file: '' @ err @ ''.''\<rparr>
                             (wrongOwnersFiles v))
              | Inr roles \<Rightarrow>
                  wrongOwnersFiles v1 = wrongOwnersFiles v
                  \<or> (\<exists>n m. wrongOwnersFiles v1
                              = AList.update (Filename c) \<lparr>line = n, message = m\<rparr>
                                  (wrongOwnersFiles v)
                            \<and> \<not> prefix ''Cannot parse file'' m)"
      by blast
    show ?thesis
    proof (cases "k = Filename c")
      case True
      with e1 b p show ?thesis
        by (cases "parseOwners w b") (auto simp: update_conv)
    next
      case False
      with e1 p have "map_of (wrongOwnersFiles v) k = Some e"
        by (cases "parseOwners w b") (auto simp: update_conv)
      then show ?thesis by blast
    qed
  next
    assume "\<exists>b. ioutil_ReadFile w (Join [dir, k]) = Inr b
          \<and> (case parseOwners w b of
                Inl err \<Rightarrow> message e = ''Cannot parse file: '' @ err @ ''.''
              | Inr roles \<Rightarrow> \<not> prefix ''Cannot parse file'' (message e))"
    then show ?thesis by blast
  qed
qed

lemma checkOwnersFiles_records_failure:
  "checkOwnersFiles w dir org bl cs v = (Next v', tr) \<Longrightarrow> f \<in> set cs \<Longrightarrow>
   ioutil_ReadFile w (Join [dir, Filename f]) = Inr b \<Longrightarrow> parseOwners w b = Inl err \<Longrightarrow>
   map_of (wrongOwnersFiles v') (Filename f) \<noteq> None"
proof (induction cs arbitrary: v tr)
  case Nil
  then show ?case by simp
next
  case (Cons c cs)
  obtain r t where s: "checkOwnersFile w dir org bl c v = (r, t)"
    by (cases "checkOwnersFile w dir org bl c v")
  with Cons.prems(1) obtain v1 where r: "r = Next v1" by (cases r) auto
  obtain r2 t2 where s2: "checkOwnersFiles w dir org bl cs v1 = (r2, t2)"
    by (cases "checkOwnersFiles w dir org bl cs v1")
  with Cons.prems(1) s r have r2: "r2 = Next v'" by (simp add: Let_def)
  show ?case
  proof (cases "f = c")
    case True
    from checkOwnersFile_records [OF s [unfolded r]] Cons.prems(3,4) True
    have "map_of (wrongOwnersFiles v1) (Filename f) \<noteq> None"
      by (auto simp: update_conv)
    from checkOwnersFiles_keeps_keys [OF s2 [unfolded r2] this] show ?thesis .
  next
    case False
    with Cons.prems(2) have "f \<in> set cs" by simp
    from Cons.IH [OF s2 [unfolded r2] this Cons.prems(3,4)] show ?thesis .
  qed
qed

lemma checkOwnersFiles_reads:
  "checkOwnersFiles w dir org bl cs v = (Next v', tr) \<Longrightarrow> f \<in> set cs \<Longrightarrow>
   \<exists>b. ioutil_ReadFile w (Join [dir, Filename f]) = Inr b"
proof (induction cs arbitrary: v tr)
  case Nil
  then show ?case by simp
next
  case (Cons c cs)
  obtain r t where s: "checkOwnersFile w dir org bl c v = (r, t)"
    by (cases "checkOwnersFile w dir org bl c v")
  with Cons.prems(1) obtain v1 where r: "r = Next v1" by (cases r) auto
  obtain r2 t2 where s2: "checkOwnersFiles w dir org bl cs v1 = (r2, t2)"
    by (cases "checkOwnersFiles w dir org bl cs v1")
  with Cons.prems(1) s r have r2: "r2 = Next v'" by (simp add: Let_def)
  show ?case
  proof (cases "f = c")
    case True
    with checkOwnersFile_records [OF s [unfolded r]] show ?thesis by blast
  next
    case False
    with Cons.prems(2) have "f \<in> set cs" by simp
    from Cons.IH [OF s2 [unfolded r2] this] show ?thesis .
  qed
qed

text \<open>A run that reaches its reaction with a changed OWNERS file went through the loop.\<close>

lemma checkFiles_loop:
  assumes "checkFiles w dir org bl changes = (Next v, tr)"
    and "f \<in> set (listOwnersFiles changes)"
  shows "\<exists>v1 t. wrongOwnersFiles v1 = []
                \<and> checkOwnersFiles w dir org bl (listOwnersFiles changes) v1 = (Next v, t)"
proof -
  have ne: "0 < length (listOwnersFiles changes)" using assms(2) by (cases "listOwnersFiles changes") auto
  have m: "snd (scanOwnersAliases changes)"
  proof (rule ccontr)
    assume "\<not> snd (scanOwnersAliases changes)"
    with ne assms(1) show False
      by (auto simp: checkFiles_def Let_def loadOwnersAliases_def split: sum.splits)
  qed
  obtain r t where a: "checkOwnersAliases w dir org (fst (scanOwnersAliases changes)) initialVars = (r, t)"
    by (cases "checkOwnersAliases w dir org (fst (scanOwnersAliases changes)) initialVars")
  with assms(1) m obtain v1 where r: "r = Next v1"
    by (cases r) (auto simp: checkFiles_def Let_def)
  have w1: "wrongOwnersFiles v1 = []"
    using a [unfolded r]
    by (auto simp: checkOwnersAliases_def Let_def initialVars_def
        split: sum.splits option.splits step.splits dest!: ensureMembers_fst_Next)
  obtain r2 t2 where l: "checkOwnersFiles w dir org bl (listOwnersFiles changes) v1 = (r2, t2)"
    by (cases "checkOwnersFiles w dir org bl (listOwnersFiles changes) v1")
  with assms(1) m a r have "r2 = Next v" by (simp add: checkFiles_def Let_def)
  with l w1 show ?thesis by blast
qed

text \<open>
  The loop, where it runs. For a changed OWNERS file that the loop reads: where the parser of the flat
  schema succeeds with a declaration that is not empty, that declaration is checked,
  whatever the parser of the filtered schema would say. Where it fails or gives an
  empty declaration, the parser of the filtered schema decides: its error, not the
  one of the flat schema, is recorded for the file as a parse error, at the line
  found for that error; and where it succeeds, the roles of its filters are checked
  and what the step records for the file, if anything, is no parse error. So it is
  at the end of the loop: when the run reaches its reaction, the entry of such a file
  in \<open>wrongOwnersFiles\<close> is the error of the filtered schema where that parser
  failed, and is no parse error where it succeeded.
\<close>

lemma owners_parse_fallback:
  assumes "ioutil_ReadFile w (Join [dir, Filename c]) = Inr b"
  shows "(repoowners_ParseSimpleConfig w b = Inr simple \<and> \<not> Empty simple
          \<longrightarrow> checkOwnersFile w dir org bl c v
                = (fst (checkRoles w org bl c simple v),
                   ReadFile (Join [dir, Filename c]) # snd (checkRoles w org bl c simple v)))
         \<and> ((case repoowners_ParseSimpleConfig w b of Inl e \<Rightarrow> True | Inr s \<Rightarrow> Empty s)
             \<and> repoowners_ParseFullConfig w b = Inl err
             \<longrightarrow> checkOwnersFile w dir org bl c v
                   = (Next (recordWrong (Filename c)
                              (fst (patchLine w err (Patch c) (Filename c)))
                              (''Cannot parse file: '' @ err @ ''.'') v),
                      ReadFile (Join [dir, Filename c])
                      # snd (patchLine w err (Patch c) (Filename c)))
                 \<and> map_of (wrongOwnersFiles
                              (recordWrong (Filename c)
                                 (fst (patchLine w err (Patch c) (Filename c)))
                                 (''Cannot parse file: '' @ err @ ''.'') v))
                      (Filename c)
                     = Some \<lparr>line = fst (patchLine w err (Patch c) (Filename c)),
                             message = ''Cannot parse file: '' @ err @ ''.''\<rparr>)
         \<and> ((case repoowners_ParseSimpleConfig w b of Inl e \<Rightarrow> True | Inr s \<Rightarrow> Empty s)
             \<and> repoowners_ParseFullConfig w b = Inr full
             \<longrightarrow> checkOwnersFile w dir org bl c v
                   = (fst (checkRoles w org bl c (fullRoles full) v),
                      ReadFile (Join [dir, Filename c])
                      # snd (checkRoles w org bl c (fullRoles full) v))
                 \<and> (case fst (checkOwnersFile w dir org bl c v) of
                       Return e \<Rightarrow> True
                     | Next v' \<Rightarrow>
                         wrongOwnersFiles v' = wrongOwnersFiles v
                         \<or> (\<exists>m. map_of (wrongOwnersFiles v') (Filename c) = Some m
                                \<and> \<not> prefix ''Cannot parse file'' (message m))))
         \<and> (checkFiles w dir org bl changes = (Next final, calls) \<and> c \<in> set (listOwnersFiles changes)
             \<longrightarrow> ((case repoowners_ParseSimpleConfig w b of Inl e \<Rightarrow> True | Inr s \<Rightarrow> Empty s)
                  \<and> repoowners_ParseFullConfig w b = Inl err
                  \<longrightarrow> (\<exists>e. map_of (wrongOwnersFiles final) (Filename c) = Some e
                            \<and> message e = ''Cannot parse file: '' @ err @ ''.''))
                 \<and> ((case repoowners_ParseSimpleConfig w b of Inl e \<Rightarrow> True | Inr s \<Rightarrow> Empty s)
                     \<and> repoowners_ParseFullConfig w b = Inr full
                     \<longrightarrow> (case map_of (wrongOwnersFiles final) (Filename c) of
                           None \<Rightarrow> True
                         | Some e \<Rightarrow> \<not> prefix ''Cannot parse file'' (message e))))"
proof -
  have 1: "repoowners_ParseSimpleConfig w b = Inr simple \<and> \<not> Empty simple
          \<longrightarrow> checkOwnersFile w dir org bl c v
                = (fst (checkRoles w org bl c simple v),
                   ReadFile (Join [dir, Filename c]) # snd (checkRoles w org bl c simple v))"
    using assms by (auto simp: checkOwnersFile_def Let_def parseOwners_flat)
  have 2: "(case repoowners_ParseSimpleConfig w b of Inl e \<Rightarrow> True | Inr s \<Rightarrow> Empty s)
             \<and> repoowners_ParseFullConfig w b = Inl err
             \<longrightarrow> checkOwnersFile w dir org bl c v
                   = (Next (recordWrong (Filename c)
                              (fst (patchLine w err (Patch c) (Filename c)))
                              (''Cannot parse file: '' @ err @ ''.'') v),
                      ReadFile (Join [dir, Filename c])
                      # snd (patchLine w err (Patch c) (Filename c)))
                 \<and> map_of (wrongOwnersFiles
                              (recordWrong (Filename c)
                                 (fst (patchLine w err (Patch c) (Filename c)))
                                 (''Cannot parse file: '' @ err @ ''.'') v))
                      (Filename c)
                     = Some \<lparr>line = fst (patchLine w err (Patch c) (Filename c)),
                             message = ''Cannot parse file: '' @ err @ ''.''\<rparr>"
    using assms
    by (auto simp: checkOwnersFile_def Let_def parseOwners_fallback parseFull_def
        recordWrong_fields)
  have 3: "(case repoowners_ParseSimpleConfig w b of Inl e \<Rightarrow> True | Inr s \<Rightarrow> Empty s)
             \<and> repoowners_ParseFullConfig w b = Inr full
             \<longrightarrow> checkOwnersFile w dir org bl c v
                   = (fst (checkRoles w org bl c (fullRoles full) v),
                      ReadFile (Join [dir, Filename c])
                      # snd (checkRoles w org bl c (fullRoles full) v))
                 \<and> (case fst (checkOwnersFile w dir org bl c v) of
                       Return e \<Rightarrow> True
                     | Next v' \<Rightarrow>
                         wrongOwnersFiles v' = wrongOwnersFiles v
                         \<or> (\<exists>m. map_of (wrongOwnersFiles v') (Filename c) = Some m
                                \<and> \<not> prefix ''Cannot parse file'' (message m)))"
  proof (intro impI, elim conjE)
    assume f: "case repoowners_ParseSimpleConfig w b of Inl e \<Rightarrow> True | Inr s \<Rightarrow> Empty s"
      and g: "repoowners_ParseFullConfig w b = Inr full"
    have e: "checkOwnersFile w dir org bl c v
               = (fst (checkRoles w org bl c (fullRoles full) v),
                  ReadFile (Join [dir, Filename c])
                  # snd (checkRoles w org bl c (fullRoles full) v))"
      using assms g
      by (simp add: checkOwnersFile_def Let_def parseOwners_fallback [OF f] parseFull_def)
    have "case fst (checkRoles w org bl c (fullRoles full) v) of
            Return e \<Rightarrow> True
          | Next v' \<Rightarrow>
              wrongOwnersFiles v' = wrongOwnersFiles v
              \<or> (\<exists>m. map_of (wrongOwnersFiles v') (Filename c) = Some m
                     \<and> \<not> prefix ''Cannot parse file'' (message m))"
      using checkRoles_no_parse_error
              [of w org bl c "fullRoles full" v _ "snd (checkRoles w org bl c (fullRoles full) v)"]
      by (cases "checkRoles w org bl c (fullRoles full) v") (auto split: step.splits)
    with e show "checkOwnersFile w dir org bl c v
                   = (fst (checkRoles w org bl c (fullRoles full) v),
                      ReadFile (Join [dir, Filename c])
                      # snd (checkRoles w org bl c (fullRoles full) v))
                 \<and> (case fst (checkOwnersFile w dir org bl c v) of
                       Return e \<Rightarrow> True
                     | Next v' \<Rightarrow>
                         wrongOwnersFiles v' = wrongOwnersFiles v
                         \<or> (\<exists>m. map_of (wrongOwnersFiles v') (Filename c) = Some m
                                \<and> \<not> prefix ''Cannot parse file'' (message m)))"
      by simp
  qed
  have 4: "(checkFiles w dir org bl changes = (Next final, calls) \<and> c \<in> set (listOwnersFiles changes)
             \<longrightarrow> ((case repoowners_ParseSimpleConfig w b of Inl e \<Rightarrow> True | Inr s \<Rightarrow> Empty s)
                  \<and> repoowners_ParseFullConfig w b = Inl err
                  \<longrightarrow> (\<exists>e. map_of (wrongOwnersFiles final) (Filename c) = Some e
                            \<and> message e = ''Cannot parse file: '' @ err @ ''.''))
                 \<and> ((case repoowners_ParseSimpleConfig w b of Inl e \<Rightarrow> True | Inr s \<Rightarrow> Empty s)
                     \<and> repoowners_ParseFullConfig w b = Inr full
                     \<longrightarrow> (case map_of (wrongOwnersFiles final) (Filename c) of
                           None \<Rightarrow> True
                         | Some e \<Rightarrow> \<not> prefix ''Cannot parse file'' (message e))))"
  proof (intro impI, elim conjE)
    assume run: "checkFiles w dir org bl changes = (Next final, calls)"
      and c: "c \<in> set (listOwnersFiles changes)"
    from checkFiles_loop [OF run c] obtain v1 t where
      w1: "wrongOwnersFiles v1 = []"
      and loop: "checkOwnersFiles w dir org bl (listOwnersFiles changes) v1 = (Next final, t)"
      by blast
    have rec: "map_of (wrongOwnersFiles final) (Filename c) = Some e \<Longrightarrow>
               (case parseOwners w b of
                  Inl err \<Rightarrow> message e = ''Cannot parse file: '' @ err @ ''.''
                | Inr roles \<Rightarrow> \<not> prefix ''Cannot parse file'' (message e))" for e
      using checkOwnersFiles_records [OF loop, of "Filename c" e] w1 assms by auto
    show "((case repoowners_ParseSimpleConfig w b of Inl e \<Rightarrow> True | Inr s \<Rightarrow> Empty s)
                  \<and> repoowners_ParseFullConfig w b = Inl err
                  \<longrightarrow> (\<exists>e. map_of (wrongOwnersFiles final) (Filename c) = Some e
                            \<and> message e = ''Cannot parse file: '' @ err @ ''.''))
                 \<and> ((case repoowners_ParseSimpleConfig w b of Inl e \<Rightarrow> True | Inr s \<Rightarrow> Empty s)
                     \<and> repoowners_ParseFullConfig w b = Inr full
                     \<longrightarrow> (case map_of (wrongOwnersFiles final) (Filename c) of
                           None \<Rightarrow> True
                         | Some e \<Rightarrow> \<not> prefix ''Cannot parse file'' (message e)))"
    proof (intro conjI impI)
      assume "(case repoowners_ParseSimpleConfig w b of Inl e \<Rightarrow> True | Inr s \<Rightarrow> Empty s)
              \<and> repoowners_ParseFullConfig w b = Inl err"
      then have p: "parseOwners w b = Inl err"
        by (simp add: parseOwners_fallback parseFull_def)
      from checkOwnersFiles_records_failure [OF loop c assms p]
      obtain e where e: "map_of (wrongOwnersFiles final) (Filename c) = Some e" by blast
      with rec [OF e] p
      show "\<exists>e. map_of (wrongOwnersFiles final) (Filename c) = Some e
                \<and> message e = ''Cannot parse file: '' @ err @ ''.''"
        by auto
    next
      assume "(case repoowners_ParseSimpleConfig w b of Inl e \<Rightarrow> True | Inr s \<Rightarrow> Empty s)
              \<and> repoowners_ParseFullConfig w b = Inr full"
      then have p: "parseOwners w b = Inr (fullRoles full)"
        by (simp add: parseOwners_fallback parseFull_def)
      show "case map_of (wrongOwnersFiles final) (Filename c) of
              None \<Rightarrow> True
            | Some e \<Rightarrow> \<not> prefix ''Cannot parse file'' (message e)"
        using rec p by (auto split: option.splits)
    qed
  qed
  show ?thesis using 1 2 3 4 by blast
qed

text \<open>
  Three files of the checkout: \<open>c/OWNERS\<close> is flat, \<open>a/OWNERS\<close> fails both parsers
  (the flat one at line 3, the filtered one at line 4), \<open>d/OWNERS\<close> is empty when read
  as flat and has one filter. A pull request that changes the alias file and the last
  two ends with one entry, the error of the filtered schema for \<open>a/OWNERS\<close>.
\<close>

lemma owners_parse_fallback_example:
  "checkOwnersFile (exampleWorld ''aliases'' cleanChanges) ''/r'' ''kubernetes'' exampleBlackList
     (changed ''c/OWNERS'') cleanVars
     = (Next (cleanVars\<lparr>nonMembers := {''bob'', ''eve''}\<rparr>),
        [ReadFile ''/r/c/OWNERS'',
         HttpGet ''https://raw.githubusercontent.com/kubernetes/org/master/config/kubernetes/org.yaml''])
   \<and> checkOwnersFile (exampleWorld ''aliases'' cleanChanges) ''/r'' ''kubernetes''
        exampleBlackList (changed ''a/OWNERS'') cleanVars
       = (Next (recordWrong ''a/OWNERS'' 5
                  ''Cannot parse file: yaml: line 4: did not find expected key.'' cleanVars),
          [ReadFile ''/r/a/OWNERS''])
   \<and> checkOwnersFile (exampleWorld ''aliases'' cleanChanges) ''/r'' ''kubernetes''
        exampleBlackList (changed ''d/OWNERS'') cleanVars
       = (Next cleanVars,
          [ReadFile ''/r/d/OWNERS'',
           HttpGet ''https://raw.githubusercontent.com/kubernetes/org/master/config/kubernetes/org.yaml''])
   \<and> fst (checkFiles (exampleWorld ''aliases'' cleanChanges) ''/r'' ''kubernetes'' exampleBlackList
            [changed ''OWNERS_ALIASES'', changed ''a/OWNERS'', changed ''d/OWNERS''])
       = Next (recordWrong ''a/OWNERS'' 5
                 ''Cannot parse file: yaml: line 4: did not find expected key.'' cleanVars)
   \<and> (\<exists>e. map_of (wrongOwnersFiles
                     (recordWrong ''a/OWNERS'' 5
                        ''Cannot parse file: yaml: line 4: did not find expected key.''
                        cleanVars)) ''a/OWNERS'' = Some e
           \<and> message e = ''Cannot parse file: yaml: line 4: did not find expected key.'')
   \<and> (case map_of (wrongOwnersFiles
                     (recordWrong ''a/OWNERS'' 5
                        ''Cannot parse file: yaml: line 4: did not find expected key.''
                        cleanVars)) ''d/OWNERS'' of
         None \<Rightarrow> True
       | Some e \<Rightarrow> \<not> prefix ''Cannot parse file'' (message e))"
proof -
  let ?w = "exampleWorld ''aliases'' cleanChanges"
  let ?users = "\<lparr>Approvers = [''team'', ''bob''], Reviewers = [''eve''],
                  RequiredReviewers = [], Labels = []\<rparr>"
  let ?full = "[(''.*'', \<lparr>Approvers = [], Reviewers = [], RequiredReviewers = [],
                           Labels = [''sig/testing'']\<rparr>)]"
  have rc: "ioutil_ReadFile ?w (Join [''/r'', Filename (changed ''c/OWNERS'')]) = Inr ''users''"
    by code_simp
  have ra: "ioutil_ReadFile ?w (Join [''/r'', Filename (changed ''a/OWNERS'')]) = Inr ''bad''"
    by code_simp
  have rd: "ioutil_ReadFile ?w (Join [''/r'', Filename (changed ''d/OWNERS'')]) = Inr ''filtered''"
    by code_simp
  have jc: "Join [''/r'', Filename (changed ''c/OWNERS'')] = ''/r/c/OWNERS''" by code_simp
  have ja: "Join [''/r'', Filename (changed ''a/OWNERS'')] = ''/r/a/OWNERS''" by code_simp
  have jd: "Join [''/r'', Filename (changed ''d/OWNERS'')] = ''/r/d/OWNERS''" by code_simp
  have sc: "repoowners_ParseSimpleConfig ?w ''users'' = Inr ?users \<and> \<not> Empty ?users"
    by (simp add: exampleWorld_def Empty_def)
  have sa: "(case repoowners_ParseSimpleConfig ?w ''bad'' of Inl e \<Rightarrow> True | Inr s \<Rightarrow> Empty s)
            \<and> repoowners_ParseFullConfig ?w ''bad''
                = Inl ''yaml: line 4: did not find expected key''"
    by (simp add: exampleWorld_def)
  have sd: "(case repoowners_ParseSimpleConfig ?w ''filtered'' of
               Inl e \<Rightarrow> True | Inr s \<Rightarrow> Empty s)
            \<and> repoowners_ParseFullConfig ?w ''filtered'' = Inr ?full"
    by (simp add: exampleWorld_def Empty_def)
  have ec: "checkRoles ?w ''kubernetes'' exampleBlackList (changed ''c/OWNERS'') ?users cleanVars
              = (Next (cleanVars\<lparr>nonMembers := {''bob'', ''eve''}\<rparr>),
                 [HttpGet ''https://raw.githubusercontent.com/kubernetes/org/master/config/kubernetes/org.yaml''])"
    by code_simp
  have ea: "patchLine ?w ''yaml: line 4: did not find expected key''
              (Patch (changed ''a/OWNERS'')) ''a/OWNERS'' = (5, [])"
    by code_simp
  have ed: "checkRoles ?w ''kubernetes'' exampleBlackList (changed ''d/OWNERS'')
              (fullRoles ?full) cleanVars
              = (Next cleanVars,
                 [HttpGet ''https://raw.githubusercontent.com/kubernetes/org/master/config/kubernetes/org.yaml''])"
    by code_simp
  have fa: "Filename (changed ''a/OWNERS'') = ''a/OWNERS''" by (simp add: changed_def)
  have 1: "checkOwnersFile ?w ''/r'' ''kubernetes'' exampleBlackList (changed ''c/OWNERS'')
             cleanVars
             = (Next (cleanVars\<lparr>nonMembers := {''bob'', ''eve''}\<rparr>),
                [ReadFile ''/r/c/OWNERS'',
                 HttpGet ''https://raw.githubusercontent.com/kubernetes/org/master/config/kubernetes/org.yaml''])"
    using owners_parse_fallback
            [OF rc, where simple = ?users and org = "''kubernetes''" and bl = exampleBlackList
               and v = cleanVars, THEN conjunct1] sc
    unfolding jc by (simp add: ec)
  have 2: "checkOwnersFile ?w ''/r'' ''kubernetes'' exampleBlackList (changed ''a/OWNERS'')
             cleanVars
             = (Next (recordWrong ''a/OWNERS'' 5
                        ''Cannot parse file: yaml: line 4: did not find expected key.'' cleanVars),
                [ReadFile ''/r/a/OWNERS''])"
    using owners_parse_fallback
            [OF ra, where err = "''yaml: line 4: did not find expected key''"
               and org = "''kubernetes''" and bl = exampleBlackList and v = cleanVars,
             THEN conjunct2, THEN conjunct1] sa
    unfolding ja by (simp add: ea fa)
  have 3: "checkOwnersFile ?w ''/r'' ''kubernetes'' exampleBlackList (changed ''d/OWNERS'')
             cleanVars
             = (Next cleanVars,
                [ReadFile ''/r/d/OWNERS'',
                 HttpGet ''https://raw.githubusercontent.com/kubernetes/org/master/config/kubernetes/org.yaml''])"
    using owners_parse_fallback
            [OF rd, where full = ?full and org = "''kubernetes''" and bl = exampleBlackList
               and v = cleanVars, THEN conjunct2, THEN conjunct2] sd
    unfolding jd by (simp add: ed)
  let ?cs = "[changed ''OWNERS_ALIASES'', changed ''a/OWNERS'', changed ''d/OWNERS'']"
  let ?x = "recordWrong ''a/OWNERS'' 5
              ''Cannot parse file: yaml: line 4: did not find expected key.'' cleanVars"
  have run: "fst (checkFiles ?w ''/r'' ''kubernetes'' exampleBlackList ?cs) = Next ?x"
    by code_simp
  have run': "checkFiles ?w ''/r'' ''kubernetes'' exampleBlackList ?cs
                = (Next ?x, snd (checkFiles ?w ''/r'' ''kubernetes'' exampleBlackList ?cs))"
    using run by (rule pair_of_fst)
  have ina: "changed ''a/OWNERS'' \<in> set (listOwnersFiles ?cs)" by code_simp
  have ind: "changed ''d/OWNERS'' \<in> set (listOwnersFiles ?cs)" by code_simp
  have fd: "Filename (changed ''d/OWNERS'') = ''d/OWNERS''" by (simp add: changed_def)
  have "\<exists>e. map_of (wrongOwnersFiles ?x) (Filename (changed ''a/OWNERS'')) = Some e
            \<and> message e = ''Cannot parse file: '' @ ''yaml: line 4: did not find expected key''
                           @ ''.''"
    using owners_parse_fallback
            [OF ra, where err = "''yaml: line 4: did not find expected key''"
               and org = "''kubernetes''" and bl = exampleBlackList and changes = ?cs
               and final = ?x
               and calls = "snd (checkFiles ?w ''/r'' ''kubernetes'' exampleBlackList ?cs)",
             THEN conjunct2, THEN conjunct2, THEN conjunct2] run' ina sa
    by blast
  then have 4: "\<exists>e. map_of (wrongOwnersFiles ?x) ''a/OWNERS'' = Some e
                  \<and> message e = ''Cannot parse file: yaml: line 4: did not find expected key.''"
    unfolding fa by simp
  have "case map_of (wrongOwnersFiles ?x) (Filename (changed ''d/OWNERS'')) of
          None \<Rightarrow> True
        | Some e \<Rightarrow> \<not> prefix ''Cannot parse file'' (message e)"
    using owners_parse_fallback
            [OF rd, where full = ?full and org = "''kubernetes''" and bl = exampleBlackList
               and changes = ?cs and final = ?x
               and calls = "snd (checkFiles ?w ''/r'' ''kubernetes'' exampleBlackList ?cs)",
             THEN conjunct2, THEN conjunct2, THEN conjunct2] run' ind sd
    by blast
  then have 5: "case map_of (wrongOwnersFiles ?x) ''d/OWNERS'' of
                  None \<Rightarrow> True
                | Some e \<Rightarrow> \<not> prefix ''Cannot parse file'' (message e)"
    unfolding fd .
  show ?thesis using 1 2 3 run 4 5 by blast
qed

lemma checkOwnersFile_step:
  assumes "checkOwnersFile w dir org bl c v = (Next v', tr)"
  shows "repoAliases v' = repoAliases v \<and> members v' = members v
         \<and> nonMembers v'
             = nonMembers v \<union>
               \<Union> {getNonMembersFromLists (repoAliases v) (members v)
                      [Approvers r, Reviewers r, RequiredReviewers r] | b r.
                    ioutil_ReadFile w (Join [dir, Filename c]) = Inr b
                    \<and> parseOwners w b = Inr r
                    \<and> \<not> HasAny (set (Labels r)) bl
                    \<and> \<not> (Dir (Filename c) = ''.'' \<and> Approvers r = [])}"
proof (cases "ioutil_ReadFile w (Join [dir, Filename c])")
  case (Inl e)
  with assms show ?thesis by (simp add: checkOwnersFile_def Let_def)
next
  case (Inr b)
  show ?thesis
  proof (cases "parseOwners w b")
    case (Inl e)
    with Inr assms show ?thesis
      by (auto simp: checkOwnersFile_def Let_def recordWrong_fields)
  next
    case roles: (Inr r)
    have cr: "checkRoles w org bl c r v = (Next v', snd (checkRoles w org bl c r v))"
      using assms Inr roles by (intro pair_of_fst) (auto simp: checkOwnersFile_def Let_def)
    show ?thesis
    proof (cases "HasAny (set (Labels r)) bl")
      case True
      from cr [unfolded checkRoles_blacklisted [OF True]] Inr roles True
      show ?thesis by (auto simp: recordWrong_fields)
    next
      case False
      show ?thesis
      proof (cases "Dir (Filename c) = ''.'' \<and> Approvers r = []")
        case True
        then have "checkRoles w org bl c r v
                     = (Next (recordWrong (Filename c) 1
                                ''No approvers defined in this root directory OWNERS file.'' v),
                        [])"
          using checkRoles_unapproved [OF False] by blast
        with cr Inr roles True show ?thesis by (auto simp: recordWrong_fields)
      next
        case f: False
        from checkRoles_passed [OF False f cr] Inr roles False f
        show ?thesis by auto
      qed
    qed
  qed
qed

lemma Union_collect_Cons:
  "\<Union> {G r | f b r. f \<in> set (c # cs) \<and> P f b r}
     = \<Union> {G r | b r. P c b r} \<union> \<Union> {G r | f b r. f \<in> set cs \<and> P f b r}"
  by fastforce

lemma checkOwnersFiles_nonMembers:
  "checkOwnersFiles w dir org bl cs v = (Next v', tr) \<Longrightarrow>
   repoAliases v' = repoAliases v \<and> members v' = members v
   \<and> nonMembers v'
       = nonMembers v \<union>
         \<Union> {getNonMembersFromLists (repoAliases v) (members v)
                [Approvers r, Reviewers r, RequiredReviewers r] | f b r.
              f \<in> set cs
              \<and> ioutil_ReadFile w (Join [dir, Filename f]) = Inr b
              \<and> parseOwners w b = Inr r
              \<and> \<not> HasAny (set (Labels r)) bl
              \<and> \<not> (Dir (Filename f) = ''.'' \<and> Approvers r = [])}"
proof (induction cs arbitrary: v tr)
  case Nil
  then show ?case by auto
next
  case (Cons c cs)
  obtain r t where s: "checkOwnersFile w dir org bl c v = (r, t)"
    by (cases "checkOwnersFile w dir org bl c v")
  with Cons.prems obtain v1 where r: "r = Next v1" by (cases r) auto
  note st = checkOwnersFile_step [OF s [unfolded r]]
  obtain r2 t2 where s2: "checkOwnersFiles w dir org bl cs v1 = (r2, t2)"
    by (cases "checkOwnersFiles w dir org bl cs v1")
  with Cons.prems s r have "r2 = Next v'" by (simp add: Let_def)
  note ih = Cons.IH [OF s2 [unfolded this]]
  have a: "repoAliases v' = repoAliases v \<and> members v' = members v" using st ih by simp
  have "nonMembers v' = nonMembers v1 \<union>
         \<Union> {getNonMembersFromLists (repoAliases v) (members v)
                [Approvers r, Reviewers r, RequiredReviewers r] | f b r.
              f \<in> set cs
              \<and> ioutil_ReadFile w (Join [dir, Filename f]) = Inr b
              \<and> parseOwners w b = Inr r
              \<and> \<not> HasAny (set (Labels r)) bl
              \<and> \<not> (Dir (Filename f) = ''.'' \<and> Approvers r = [])}"
    using ih st by simp
  then have "nonMembers v'
       = nonMembers v \<union>
         \<Union> {getNonMembersFromLists (repoAliases v) (members v)
                [Approvers r, Reviewers r, RequiredReviewers r] | f b r.
              f \<in> set (c # cs)
              \<and> ioutil_ReadFile w (Join [dir, Filename f]) = Inr b
              \<and> parseOwners w b = Inr r
              \<and> \<not> HasAny (set (Labels r)) bl
              \<and> \<not> (Dir (Filename f) = ''.'' \<and> Approvers r = [])}"
    unfolding st [THEN conjunct2, THEN conjunct2]
      Union_collect_Cons
        [where G = "\<lambda>r. getNonMembersFromLists (repoAliases v) (members v)
                          [Approvers r, Reviewers r, RequiredReviewers r]"
           and P = "\<lambda>f b r. ioutil_ReadFile w (Join [dir, Filename f]) = Inr b
                            \<and> parseOwners w b = Inr r
                            \<and> \<not> HasAny (set (Labels r)) bl
                            \<and> \<not> (Dir (Filename f) = ''.'' \<and> Approvers r = [])"]
    by (simp add: Un_assoc)
  with a show ?case by blast
qed

lemma checkOwnersAliases_nonMembers:
  assumes "checkOwnersAliases w dir org c v = (Next v', t)"
  shows "nonMembers v' = ExpandAllAliases (repoAliases v') - members v'"
  using assms
  by (auto simp: checkOwnersAliases_def Let_def split: sum.splits option.splits step.splits)

lemma checkFiles_nonMembers:
  assumes "checkFiles w dir org bl changes = (Next final, calls)"
  shows "nonMembers final
           = (ExpandAllAliases (repoAliases final) - members final) \<union>
             \<Union> {getNonMembersFromLists (repoAliases final) (members final)
                    [Approvers r, Reviewers r, RequiredReviewers r] | f b r.
                  f \<in> set (listOwnersFiles changes)
                  \<and> ioutil_ReadFile w (Join [dir, Filename f]) = Inr b
                  \<and> parseOwners w b = Inr r
                  \<and> \<not> HasAny (set (Labels r)) bl
                  \<and> \<not> (Dir (Filename f) = ''.'' \<and> Approvers r = [])}"
proof (cases "snd (scanOwnersAliases changes)")
  case True
  obtain r t where a: "checkOwnersAliases w dir org (fst (scanOwnersAliases changes)) initialVars = (r, t)"
    by (cases "checkOwnersAliases w dir org (fst (scanOwnersAliases changes)) initialVars")
  with assms True obtain v1 where r: "r = Next v1"
    by (cases r) (auto simp: checkFiles_def Let_def)
  note n1 = checkOwnersAliases_nonMembers [OF a [unfolded r]]
  obtain r2 t2 where l: "checkOwnersFiles w dir org bl (listOwnersFiles changes) v1 = (r2, t2)"
    by (cases "checkOwnersFiles w dir org bl (listOwnersFiles changes) v1")
  with assms True a r have "r2 = Next final" by (simp add: checkFiles_def Let_def)
  note lp = checkOwnersFiles_nonMembers [OF l [unfolded this]]
  show ?thesis
    using lp n1 by simp
next
  case False
  have e: "listOwnersFiles changes = []"
  proof (rule ccontr)
    assume "listOwnersFiles changes \<noteq> []"
    then have "0 < length (listOwnersFiles changes)" by simp
    with False assms show False
      by (auto simp: checkFiles_def Let_def loadOwnersAliases_def split: sum.splits)
  qed
  with False assms have "final = initialVars"
    by (simp add: checkFiles_def Let_def)
  with e show ?thesis
    by (simp add: initialVars_def ExpandAllAliases_def)
qed

text \<open>
  The loop, where it runs. For a changed OWNERS file that the loop reads and parses: if its labels meet
  the blacklist, the step records the blacklist message for the file and does
  nothing else, neither the check of the root approvers nor a fetch of the roster;
  if they do not, and the file is at the root and names no approver, the step records
  that and does nothing else. Recording leaves the non-members as they were. So over
  the whole loop the non-members grow by the users of exactly those files that parse
  and pass both checks; and when the run reaches its reaction, its non-members are
  the non-members among the users of the alias file and the users of those files.
\<close>

lemma rejected_file_adds_no_nonMembers:
  assumes "ioutil_ReadFile w (Join [dir, Filename c]) = Inr b"
    and "parseOwners w b = Inr roles"
  shows "(HasAny (set (Labels roles)) bl
          \<longrightarrow> checkOwnersFile w dir org bl c v
                = (Next (recordWrong (Filename c) 1
                           (''File contains blacklisted labels: ''
                              @ showStrings (sorted_list_of_set (set (Labels roles) \<inter> set bl))
                              @ ''.'') v),
                   [ReadFile (Join [dir, Filename c])]))
         \<and> (\<not> HasAny (set (Labels roles)) bl \<and> Dir (Filename c) = ''.'' \<and> Approvers roles = []
             \<longrightarrow> checkOwnersFile w dir org bl c v
                   = (Next (recordWrong (Filename c) 1
                              ''No approvers defined in this root directory OWNERS file.'' v),
                      [ReadFile (Join [dir, Filename c])]))
         \<and> nonMembers (recordWrong (Filename c) n m v) = nonMembers v
         \<and> members (recordWrong (Filename c) n m v) = members v
         \<and> map_of (wrongOwnersFiles (recordWrong (Filename c) n m v)) (Filename c)
             = Some \<lparr>line = n, message = m\<rparr>
         \<and> (checkOwnersFiles w dir org bl cs v = (Next v', tr)
             \<longrightarrow> nonMembers v'
                   = nonMembers v \<union>
                     \<Union> {getNonMembersFromLists (repoAliases v) (members v)
                            [Approvers r, Reviewers r, RequiredReviewers r] | f b r.
                          f \<in> set cs
                          \<and> ioutil_ReadFile w (Join [dir, Filename f]) = Inr b
                          \<and> parseOwners w b = Inr r
                          \<and> \<not> HasAny (set (Labels r)) bl
                          \<and> \<not> (Dir (Filename f) = ''.'' \<and> Approvers r = [])})
         \<and> (checkFiles w dir org bl changes = (Next final, calls)
             \<longrightarrow> nonMembers final
                   = (ExpandAllAliases (repoAliases final) - members final) \<union>
                     \<Union> {getNonMembersFromLists (repoAliases final) (members final)
                            [Approvers r, Reviewers r, RequiredReviewers r] | f b r.
                          f \<in> set (listOwnersFiles changes)
                          \<and> ioutil_ReadFile w (Join [dir, Filename f]) = Inr b
                          \<and> parseOwners w b = Inr r
                          \<and> \<not> HasAny (set (Labels r)) bl
                          \<and> \<not> (Dir (Filename f) = ''.'' \<and> Approvers r = [])})"
proof -
  have 1: "HasAny (set (Labels roles)) bl
          \<longrightarrow> checkOwnersFile w dir org bl c v
                = (Next (recordWrong (Filename c) 1
                           (''File contains blacklisted labels: ''
                              @ showStrings (sorted_list_of_set (set (Labels roles) \<inter> set bl))
                              @ ''.'') v),
                   [ReadFile (Join [dir, Filename c])])"
    using assms by (simp add: checkOwnersFile_def Let_def checkRoles_blacklisted)
  have 2: "\<not> HasAny (set (Labels roles)) bl \<and> Dir (Filename c) = ''.'' \<and> Approvers roles = []
             \<longrightarrow> checkOwnersFile w dir org bl c v
                   = (Next (recordWrong (Filename c) 1
                              ''No approvers defined in this root directory OWNERS file.'' v),
                      [ReadFile (Join [dir, Filename c])])"
    using assms by (simp add: checkOwnersFile_def Let_def checkRoles_unapproved)
  have 3: "checkOwnersFiles w dir org bl cs v = (Next v', tr)
             \<longrightarrow> nonMembers v'
                   = nonMembers v \<union>
                     \<Union> {getNonMembersFromLists (repoAliases v) (members v)
                            [Approvers r, Reviewers r, RequiredReviewers r] | f b r.
                          f \<in> set cs
                          \<and> ioutil_ReadFile w (Join [dir, Filename f]) = Inr b
                          \<and> parseOwners w b = Inr r
                          \<and> \<not> HasAny (set (Labels r)) bl
                          \<and> \<not> (Dir (Filename f) = ''.'' \<and> Approvers r = [])}"
    using checkOwnersFiles_nonMembers [of w dir org bl cs v v' tr] by blast
  have 4: "(checkFiles w dir org bl changes = (Next final, calls)
             \<longrightarrow> nonMembers final
                   = (ExpandAllAliases (repoAliases final) - members final) \<union>
                     \<Union> {getNonMembersFromLists (repoAliases final) (members final)
                            [Approvers r, Reviewers r, RequiredReviewers r] | f b r.
                          f \<in> set (listOwnersFiles changes)
                          \<and> ioutil_ReadFile w (Join [dir, Filename f]) = Inr b
                          \<and> parseOwners w b = Inr r
                          \<and> \<not> HasAny (set (Labels r)) bl
                          \<and> \<not> (Dir (Filename f) = ''.'' \<and> Approvers r = [])})"
    using checkFiles_nonMembers [of w dir org bl changes final calls] by blast
  show ?thesis using 1 2 3 4 by (simp add: recordWrong_fields)
qed

text \<open>
  \<open>b/OWNERS\<close> has a blacklisted label and the approver \<open>mallory\<close>; the root file
  of the second world names no approver; the loop over \<open>b/OWNERS\<close> and \<open>c/OWNERS\<close>
  adds the users of \<open>c/OWNERS\<close> only, and so does the run on a pull request that
  changes the alias file and these two.
\<close>

lemma rejected_file_adds_no_nonMembers_example:
  "checkOwnersFile (exampleWorld ''aliases'' cleanChanges) ''/r'' ''kubernetes'' exampleBlackList
     (changed ''b/OWNERS'') cleanVars
     = (Next (recordWrong ''b/OWNERS'' 1
                ''File contains blacklisted labels: [priority/critical-urgent].'' cleanVars),
        [ReadFile ''/r/b/OWNERS''])
   \<and> checkOwnersFile (rootUnapproved (exampleWorld ''aliases'' cleanChanges)) ''/r''
        ''kubernetes'' exampleBlackList (changed ''OWNERS'') cleanVars
       = (Next (recordWrong ''OWNERS'' 1
                  ''No approvers defined in this root directory OWNERS file.'' cleanVars),
          [ReadFile ''/r/OWNERS''])
   \<and> nonMembers (recordWrong ''b/OWNERS'' 1
                   ''File contains blacklisted labels: [priority/critical-urgent].'' cleanVars)
       = {}
   \<and> \<Union> {getNonMembersFromLists (repoAliases cleanVars) (members cleanVars)
            [Approvers r, Reviewers r, RequiredReviewers r] | f b r.
          f \<in> set [changed ''b/OWNERS'', changed ''c/OWNERS'']
          \<and> ioutil_ReadFile (exampleWorld ''aliases'' cleanChanges)
                (Join [''/r'', Filename f]) = Inr b
          \<and> parseOwners (exampleWorld ''aliases'' cleanChanges) b = Inr r
          \<and> \<not> HasAny (set (Labels r)) exampleBlackList
          \<and> \<not> (Dir (Filename f) = ''.'' \<and> Approvers r = [])}
       = {''bob'', ''eve''}
   \<and> fst (checkFiles (exampleWorld ''aliases'' cleanChanges) ''/r'' ''kubernetes'' exampleBlackList
            [changed ''OWNERS_ALIASES'', changed ''b/OWNERS'', changed ''c/OWNERS''])
       = Next ((recordWrong ''b/OWNERS'' 1
                  ''File contains blacklisted labels: [priority/critical-urgent].'' cleanVars)
               \<lparr>nonMembers := {''bob'', ''eve''}\<rparr>)
   \<and> (ExpandAllAliases [(''team'', [])] - {}) \<union>
       \<Union> {getNonMembersFromLists [(''team'', [])] {}
              [Approvers r, Reviewers r, RequiredReviewers r] | f b r.
            f \<in> set (listOwnersFiles
                        [changed ''OWNERS_ALIASES'', changed ''b/OWNERS'', changed ''c/OWNERS''])
            \<and> ioutil_ReadFile (exampleWorld ''aliases'' cleanChanges)
                  (Join [''/r'', Filename f]) = Inr b
            \<and> parseOwners (exampleWorld ''aliases'' cleanChanges) b = Inr r
            \<and> \<not> HasAny (set (Labels r)) exampleBlackList
            \<and> \<not> (Dir (Filename f) = ''.'' \<and> Approvers r = [])}
       = {''bob'', ''eve''}"
proof -
  let ?w = "exampleWorld ''aliases'' cleanChanges"
  let ?u = "rootUnapproved (exampleWorld ''aliases'' cleanChanges)"
  let ?black = "\<lparr>Approvers = [''mallory''], Reviewers = [], RequiredReviewers = [],
                  Labels = [''priority/critical-urgent'', ''kind/flake'']\<rparr>"
  let ?bare = "\<lparr>Approvers = [], Reviewers = [], RequiredReviewers = [],
                 Labels = [''sig/testing'']\<rparr>"
  let ?msg = "''File contains blacklisted labels: [priority/critical-urgent].''"
  have rb: "ioutil_ReadFile ?w (Join [''/r'', Filename (changed ''b/OWNERS'')]) = Inr ''black''"
    by code_simp
  have pb: "parseOwners ?w ''black'' = Inr ?black" by code_simp
  have hb: "HasAny (set (Labels ?black)) exampleBlackList" by code_simp
  have sb: "showStrings (sorted_list_of_set (set (Labels ?black) \<inter> set exampleBlackList))
              = ''[priority/critical-urgent]''"
    by code_simp
  have jb: "Join [''/r'', ''b/OWNERS''] = ''/r/b/OWNERS''" by code_simp
  have fb: "Filename (changed ''b/OWNERS'') = ''b/OWNERS''" by (simp add: changed_def)
  have ro: "ioutil_ReadFile ?u (Join [''/r'', Filename (changed ''OWNERS'')]) = Inr ''filtered''"
    by code_simp
  have po: "parseOwners ?u ''filtered'' = Inr ?bare" by code_simp
  have ho: "\<not> HasAny (set (Labels ?bare)) exampleBlackList \<and> Dir (Filename (changed ''OWNERS'')) = ''.''
            \<and> Approvers ?bare = []"
    by code_simp
  have jo: "Join [''/r'', ''OWNERS''] = ''/r/OWNERS''" by code_simp
  have fo: "Filename (changed ''OWNERS'') = ''OWNERS''" by (simp add: changed_def)
  have lp: "checkOwnersFiles ?w ''/r'' ''kubernetes'' exampleBlackList
              [changed ''b/OWNERS'', changed ''c/OWNERS''] cleanVars
              = (Next ((recordWrong ''b/OWNERS'' 1 ?msg cleanVars)\<lparr>nonMembers := {''bob'', ''eve''}\<rparr>),
                 snd (checkOwnersFiles ?w ''/r'' ''kubernetes'' exampleBlackList
                        [changed ''b/OWNERS'', changed ''c/OWNERS''] cleanVars))"
    by (rule pair_of_fst) code_simp
  note t = rejected_file_adds_no_nonMembers
             [OF rb pb, where bl = exampleBlackList and org = "''kubernetes''" and v = cleanVars
                and n = 1 and m = ?msg
                and cs = "[changed ''b/OWNERS'', changed ''c/OWNERS'']"
                and v' = "(recordWrong ''b/OWNERS'' 1 ?msg cleanVars)\<lparr>nonMembers := {''bob'', ''eve''}\<rparr>"
                and tr = "snd (checkOwnersFiles ?w ''/r'' ''kubernetes'' exampleBlackList
                                 [changed ''b/OWNERS'', changed ''c/OWNERS''] cleanVars)"]
  have 1: "checkOwnersFile ?w ''/r'' ''kubernetes'' exampleBlackList (changed ''b/OWNERS'')
             cleanVars
             = (Next (recordWrong ''b/OWNERS'' 1 ?msg cleanVars), [ReadFile ''/r/b/OWNERS''])"
    using t [THEN conjunct1] hb unfolding sb jb fb by simp
  have 2: "checkOwnersFile ?u ''/r'' ''kubernetes'' exampleBlackList (changed ''OWNERS'') cleanVars
             = (Next (recordWrong ''OWNERS'' 1
                        ''No approvers defined in this root directory OWNERS file.'' cleanVars),
                [ReadFile ''/r/OWNERS''])"
    using rejected_file_adds_no_nonMembers
            [OF ro po, where bl = exampleBlackList and org = "''kubernetes''" and v = cleanVars,
             THEN conjunct2, THEN conjunct1] ho
    unfolding jo fo by simp
  have 3: "nonMembers (recordWrong ''b/OWNERS'' 1 ?msg cleanVars) = {}"
    using t [THEN conjunct2, THEN conjunct2, THEN conjunct1]
    unfolding fb by (simp add: cleanVars_def)
  have 4: "\<Union> {getNonMembersFromLists (repoAliases cleanVars) (members cleanVars)
            [Approvers r, Reviewers r, RequiredReviewers r] | f b r.
          f \<in> set [changed ''b/OWNERS'', changed ''c/OWNERS'']
          \<and> ioutil_ReadFile ?w (Join [''/r'', Filename f]) = Inr b
          \<and> parseOwners ?w b = Inr r
          \<and> \<not> HasAny (set (Labels r)) exampleBlackList
          \<and> \<not> (Dir (Filename f) = ''.'' \<and> Approvers r = [])}
       = {''bob'', ''eve''}"
    using t [THEN conjunct2, THEN conjunct2, THEN conjunct2, THEN conjunct2, THEN conjunct2] lp
    by (simp add: cleanVars_def)
  let ?cs = "[changed ''OWNERS_ALIASES'', changed ''b/OWNERS'', changed ''c/OWNERS'']"
  let ?x = "(recordWrong ''b/OWNERS'' 1 ?msg cleanVars)\<lparr>nonMembers := {''bob'', ''eve''}\<rparr>"
  have run: "fst (checkFiles ?w ''/r'' ''kubernetes'' exampleBlackList ?cs) = Next ?x"
    by code_simp
  have run': "checkFiles ?w ''/r'' ''kubernetes'' exampleBlackList ?cs
                = (Next ?x, snd (checkFiles ?w ''/r'' ''kubernetes'' exampleBlackList ?cs))"
    using run by (rule pair_of_fst)
  have xs: "repoAliases ?x = [(''team'', [])]" "members ?x = {}"
    "nonMembers ?x = {''bob'', ''eve''}"
    by (simp_all add: recordWrong_def cleanVars_def)
  have 5: "(ExpandAllAliases [(''team'', [])] - {}) \<union>
       \<Union> {getNonMembersFromLists [(''team'', [])] {}
              [Approvers r, Reviewers r, RequiredReviewers r] | f b r.
            f \<in> set (listOwnersFiles ?cs)
            \<and> ioutil_ReadFile ?w (Join [''/r'', Filename f]) = Inr b
            \<and> parseOwners ?w b = Inr r
            \<and> \<not> HasAny (set (Labels r)) exampleBlackList
            \<and> \<not> (Dir (Filename f) = ''.'' \<and> Approvers r = [])}
       = {''bob'', ''eve''}"
    using rejected_file_adds_no_nonMembers
            [OF rb pb, where bl = exampleBlackList and org = "''kubernetes''" and changes = ?cs
               and final = ?x
               and calls = "snd (checkFiles ?w ''/r'' ''kubernetes'' exampleBlackList ?cs)",
             THEN conjunct2, THEN conjunct2, THEN conjunct2, THEN conjunct2, THEN conjunct2,
             THEN conjunct2] run'
    unfolding xs by simp
  show ?thesis using 1 2 3 4 run 5 by blast
qed

subsection \<open>OWNERS files changed, the alias file unchanged\<close>

text \<open>
  Lines 304-313 end the run: after the alias file of the checkout is read and parsed,
  \<open>handle\<close> returns the error of the parser, nil if there is none. No OWNERS file is
  read and no call is made on the pull request.
\<close>

lemma handle_owners_only:
  assumes "ghc_GetPullRequestChanges w (Repo_Owner_Login pre) (Repo_Name pre) (Number pre)
             = Inr changes"
    and "0 < length (listOwnersFiles changes)"
    and "\<not> snd (scanOwnersAliases changes)"
    and "gc_Clone w (Repo_FullName pre) = Inr dir"
    and "r_CheckoutPullRequest w (Number pre) = None"
  shows "handle w pre bl
           = deferClean w
               ((case ioutil_ReadFile w (Join [dir, ownersAliasesFileName]) of
                   Inl err \<Rightarrow> None
                 | Inr b \<Rightarrow> snd (repoowners_ParseAliasesConfig w b)),
                [GetPullRequestChanges (Repo_Owner_Login pre) (Repo_Name pre) (Number pre),
                 Clone (Repo_FullName pre), CheckoutPullRequest (Number pre)]
                @ snd (loadOwnersAliases w dir initialVars))
         \<and> filter isNotification (snd (handle w pre bl)) = []"
proof -
  have h: "handle w pre bl
           = deferClean w
               ((case ioutil_ReadFile w (Join [dir, ownersAliasesFileName]) of
                   Inl err \<Rightarrow> None
                 | Inr b \<Rightarrow> snd (repoowners_ParseAliasesConfig w b)),
                [GetPullRequestChanges (Repo_Owner_Login pre) (Repo_Name pre) (Number pre),
                 Clone (Repo_FullName pre), CheckoutPullRequest (Number pre)]
                @ snd (loadOwnersAliases w dir initialVars))"
    using assms
    by (auto simp: handle_def Let_def checkFiles_def loadOwnersAliases_def split: sum.splits)
  show ?thesis
    unfolding h deferClean_notifications
    using loadOwnersAliases_trace [of w dir initialVars] by simp
qed

text \<open>
  C1 fails on the code. The pull request changes \<open>b/OWNERS\<close> only, a file with a
  blacklisted label. The run reads the alias file and returns nil: \<open>b/OWNERS\<close> is
  not read, and the pull request gets neither label nor review. The same file in a
  pull request that also changes the alias file is parsed, checked against the
  blacklist and reported.
\<close>

theorem handle_owners_without_aliases_returns_early:
  "handle (exampleWorld ''aliases'' [changed ''b/OWNERS'']) examplePre exampleBlackList
     = (None,
        [GetPullRequestChanges ''kubernetes'' ''test-infra'' 7,
         Clone ''kubernetes/test-infra'', CheckoutPullRequest 7,
         ReadFile ''/r/OWNERS_ALIASES'', CleanRepo])
   \<and> handle (exampleWorld ''aliases'' [changed ''b/OWNERS'', changed ''OWNERS_ALIASES''])
        examplePre exampleBlackList
       = (None,
          [GetPullRequestChanges ''kubernetes'' ''test-infra'' 7,
           Clone ''kubernetes/test-infra'', CheckoutPullRequest 7,
           ReadFile ''/r/OWNERS_ALIASES'',
           HttpGet ''https://raw.githubusercontent.com/kubernetes/org/master/config/kubernetes/org.yaml'',
           ReadFile ''/r/b/OWNERS'',
           AddLabel ''kubernetes'' ''test-infra'' 7 ''do-not-merge/invalid-owners-file'',
           LogDebug ''Creating a review for 1 OWNERS file.'',
           CreateReview ''kubernetes'' ''test-infra'' 7
             \<lparr>CommitSHA = ''abc123'',
              ReviewBody = ''@alice: Adding the do-not-merge/invalid-owners-file label because of the following errors:'' @ [CHR 0x0A] @ ''- 1 invalid OWNERS file'',
              Action = Comment,
              Comments =
                [\<lparr>Path = ''b/OWNERS'', Position = 1,
                  Body = ''File contains blacklisted labels: [priority/critical-urgent].''\<rparr>]\<rparr>,
           CleanRepo])"
  by code_simp

text \<open>
  C6 fails on the code, by the same return as C1. The pull request changes
  \<open>a/OWNERS\<close> only, a file that neither parser accepts. The run reads the alias
  file and returns nil: \<open>a/OWNERS\<close> is not read, so no parser is tried on it and no
  error is recorded for it. In a pull request that also changes the alias file the
  loop runs, and the review carries the error of the filtered schema for the file.
\<close>

theorem handle_parses_no_owners_file:
  "ioutil_ReadFile (exampleWorld ''aliases'' [changed ''a/OWNERS'']) ''/r/a/OWNERS'' = Inr ''bad''
   \<and> repoowners_ParseSimpleConfig (exampleWorld ''aliases'' [changed ''a/OWNERS'']) ''bad''
       = Inl ''yaml: line 3: could not find expected key''
   \<and> repoowners_ParseFullConfig (exampleWorld ''aliases'' [changed ''a/OWNERS'']) ''bad''
       = Inl ''yaml: line 4: did not find expected key''
   \<and> handle (exampleWorld ''aliases'' [changed ''a/OWNERS'']) examplePre exampleBlackList
       = (None,
          [GetPullRequestChanges ''kubernetes'' ''test-infra'' 7,
           Clone ''kubernetes/test-infra'', CheckoutPullRequest 7,
           ReadFile ''/r/OWNERS_ALIASES'', CleanRepo])
   \<and> handle (exampleWorld ''aliases'' [changed ''a/OWNERS'', changed ''OWNERS_ALIASES''])
        examplePre exampleBlackList
       = (None,
          [GetPullRequestChanges ''kubernetes'' ''test-infra'' 7,
           Clone ''kubernetes/test-infra'', CheckoutPullRequest 7,
           ReadFile ''/r/OWNERS_ALIASES'',
           HttpGet ''https://raw.githubusercontent.com/kubernetes/org/master/config/kubernetes/org.yaml'',
           ReadFile ''/r/a/OWNERS'',
           AddLabel ''kubernetes'' ''test-infra'' 7 ''do-not-merge/invalid-owners-file'',
           LogDebug ''Creating a review for 1 OWNERS file.'',
           CreateReview ''kubernetes'' ''test-infra'' 7
             \<lparr>CommitSHA = ''abc123'',
              ReviewBody = ''@alice: Adding the do-not-merge/invalid-owners-file label because of the following errors:'' @ [CHR 0x0A] @ ''- 1 invalid OWNERS file'',
              Action = Comment,
              Comments =
                [\<lparr>Path = ''a/OWNERS'', Position = 5,
                  Body = ''Cannot parse file: yaml: line 4: did not find expected key.''\<rparr>]\<rparr>,
           CleanRepo])"
proof -
  have w: "ioutil_ReadFile (exampleWorld ''aliases'' [changed ''a/OWNERS'']) ''/r/a/OWNERS''
             = Inr ''bad''
           \<and> repoowners_ParseSimpleConfig (exampleWorld ''aliases'' [changed ''a/OWNERS'']) ''bad''
               = Inl ''yaml: line 3: could not find expected key''
           \<and> repoowners_ParseFullConfig (exampleWorld ''aliases'' [changed ''a/OWNERS'']) ''bad''
               = Inl ''yaml: line 4: did not find expected key''"
    by (simp add: exampleWorld_def)
  have h: "handle (exampleWorld ''aliases'' [changed ''a/OWNERS'']) examplePre exampleBlackList
       = (None,
          [GetPullRequestChanges ''kubernetes'' ''test-infra'' 7,
           Clone ''kubernetes/test-infra'', CheckoutPullRequest 7,
           ReadFile ''/r/OWNERS_ALIASES'', CleanRepo])"
    by code_simp
  have s: "handle (exampleWorld ''aliases'' [changed ''a/OWNERS'', changed ''OWNERS_ALIASES''])
        examplePre exampleBlackList
       = (None,
          [GetPullRequestChanges ''kubernetes'' ''test-infra'' 7,
           Clone ''kubernetes/test-infra'', CheckoutPullRequest 7,
           ReadFile ''/r/OWNERS_ALIASES'',
           HttpGet ''https://raw.githubusercontent.com/kubernetes/org/master/config/kubernetes/org.yaml'',
           ReadFile ''/r/a/OWNERS'',
           AddLabel ''kubernetes'' ''test-infra'' 7 ''do-not-merge/invalid-owners-file'',
           LogDebug ''Creating a review for 1 OWNERS file.'',
           CreateReview ''kubernetes'' ''test-infra'' 7
             \<lparr>CommitSHA = ''abc123'',
              ReviewBody = ''@alice: Adding the do-not-merge/invalid-owners-file label because of the following errors:'' @ [CHR 0x0A] @ ''- 1 invalid OWNERS file'',
              Action = Comment,
              Comments =
                [\<lparr>Path = ''a/OWNERS'', Position = 5,
                  Body = ''Cannot parse file: yaml: line 4: did not find expected key.''\<rparr>]\<rparr>,
           CleanRepo])"
    by code_simp
  show ?thesis using w h s by simp
qed

text \<open>
  C10 fails on the code, by the same return as C1. The pull request changes
  \<open>b/OWNERS\<close>, which has a blacklisted label and the approver \<open>mallory\<close>, and
  \<open>c/OWNERS\<close>, which lists \<open>bob\<close> and \<open>eve\<close>. The run reads the alias file and
  returns nil: no blacklist violation is recorded for \<open>b/OWNERS\<close>, and the pull
  request gets neither label nor review. In a pull request that also changes the
  alias file the loop runs: the review has the blacklist message for \<open>b/OWNERS\<close>
  as its only comment and lists the users of \<open>c/OWNERS\<close>, not \<open>mallory\<close>.
\<close>

theorem handle_records_no_blacklist_violation:
  "ioutil_ReadFile (exampleWorld ''aliases'' [changed ''b/OWNERS'', changed ''c/OWNERS''])
     ''/r/b/OWNERS'' = Inr ''black''
   \<and> parseOwners (exampleWorld ''aliases'' [changed ''b/OWNERS'', changed ''c/OWNERS'']) ''black''
       = Inr \<lparr>Approvers = [''mallory''], Reviewers = [], RequiredReviewers = [],
              Labels = [''priority/critical-urgent'', ''kind/flake'']\<rparr>
   \<and> exampleBlackList = [''priority/critical-urgent'']
   \<and> handle (exampleWorld ''aliases'' [changed ''b/OWNERS'', changed ''c/OWNERS'']) examplePre
        exampleBlackList
       = (None,
          [GetPullRequestChanges ''kubernetes'' ''test-infra'' 7,
           Clone ''kubernetes/test-infra'', CheckoutPullRequest 7,
           ReadFile ''/r/OWNERS_ALIASES'', CleanRepo])
   \<and> handle (exampleWorld ''aliases''
               [changed ''b/OWNERS'', changed ''c/OWNERS'', changed ''OWNERS_ALIASES''])
        examplePre exampleBlackList
       = (None,
          [GetPullRequestChanges ''kubernetes'' ''test-infra'' 7,
           Clone ''kubernetes/test-infra'', CheckoutPullRequest 7,
           ReadFile ''/r/OWNERS_ALIASES'',
           HttpGet ''https://raw.githubusercontent.com/kubernetes/org/master/config/kubernetes/org.yaml'',
           ReadFile ''/r/b/OWNERS'', ReadFile ''/r/c/OWNERS'',
           HttpGet ''https://raw.githubusercontent.com/kubernetes/org/master/config/kubernetes/org.yaml'',
           AddLabel ''kubernetes'' ''test-infra'' 7 ''do-not-merge/invalid-owners-file'',
           LogDebug ''Creating a review for 1 OWNERS file.'',
           CreateReview ''kubernetes'' ''test-infra'' 7
             \<lparr>CommitSHA = ''abc123'',
              ReviewBody = ''@alice: Adding the do-not-merge/invalid-owners-file label because of the following errors:'' @ [CHR 0x0A]
                @ ''- 1 invalid OWNERS file- The following users are not members of the kubernetes GitHub org. Membership is mandatory for being listed in an OWNERS file. Instructions for applying for membership can be found [here](https://git.k8s.io/community/community-membership.md#member).''
                @ [CHR 0x0A] @ ''  - @bob'' @ [CHR 0x0A] @ ''  - @eve'',
              Action = Comment,
              Comments =
                [\<lparr>Path = ''b/OWNERS'', Position = 1,
                  Body = ''File contains blacklisted labels: [priority/critical-urgent].''\<rparr>]\<rparr>,
           CleanRepo])"
proof -
  have w: "ioutil_ReadFile (exampleWorld ''aliases'' [changed ''b/OWNERS'', changed ''c/OWNERS''])
             ''/r/b/OWNERS'' = Inr ''black''
           \<and> parseOwners (exampleWorld ''aliases'' [changed ''b/OWNERS'', changed ''c/OWNERS''])
               ''black''
               = Inr \<lparr>Approvers = [''mallory''], Reviewers = [], RequiredReviewers = [],
                      Labels = [''priority/critical-urgent'', ''kind/flake'']\<rparr>
           \<and> exampleBlackList = [''priority/critical-urgent'']"
    by code_simp
  have h: "handle (exampleWorld ''aliases'' [changed ''b/OWNERS'', changed ''c/OWNERS''])
             examplePre exampleBlackList
       = (None,
          [GetPullRequestChanges ''kubernetes'' ''test-infra'' 7,
           Clone ''kubernetes/test-infra'', CheckoutPullRequest 7,
           ReadFile ''/r/OWNERS_ALIASES'', CleanRepo])"
    by code_simp
  have s: "handle (exampleWorld ''aliases''
               [changed ''b/OWNERS'', changed ''c/OWNERS'', changed ''OWNERS_ALIASES''])
        examplePre exampleBlackList
       = (None,
          [GetPullRequestChanges ''kubernetes'' ''test-infra'' 7,
           Clone ''kubernetes/test-infra'', CheckoutPullRequest 7,
           ReadFile ''/r/OWNERS_ALIASES'',
           HttpGet ''https://raw.githubusercontent.com/kubernetes/org/master/config/kubernetes/org.yaml'',
           ReadFile ''/r/b/OWNERS'', ReadFile ''/r/c/OWNERS'',
           HttpGet ''https://raw.githubusercontent.com/kubernetes/org/master/config/kubernetes/org.yaml'',
           AddLabel ''kubernetes'' ''test-infra'' 7 ''do-not-merge/invalid-owners-file'',
           LogDebug ''Creating a review for 1 OWNERS file.'',
           CreateReview ''kubernetes'' ''test-infra'' 7
             \<lparr>CommitSHA = ''abc123'',
              ReviewBody = ''@alice: Adding the do-not-merge/invalid-owners-file label because of the following errors:'' @ [CHR 0x0A]
                @ ''- 1 invalid OWNERS file- The following users are not members of the kubernetes GitHub org. Membership is mandatory for being listed in an OWNERS file. Instructions for applying for membership can be found [here](https://git.k8s.io/community/community-membership.md#member).''
                @ [CHR 0x0A] @ ''  - @bob'' @ [CHR 0x0A] @ ''  - @eve'',
              Action = Comment,
              Comments =
                [\<lparr>Path = ''b/OWNERS'', Position = 1,
                  Body = ''File contains blacklisted labels: [priority/critical-urgent].''\<rparr>]\<rparr>,
           CleanRepo])"
    by code_simp
  show ?thesis using w h s by simp
qed

subsection \<open>The roster\<close>

text \<open>
  C8 fails on the code. The pull request changes the alias file and the OWNERS
  file at the root, both sound. The roster is fetched for the alias file and once
  more for the OWNERS file: \<open>members\<close> is still empty after the first fetch, as it is
  after every fetch that succeeds, and its being empty is what asks for a fetch.
\<close>

theorem handle_fetches_roster_twice:
  "snd (handle (exampleWorld ''aliases'' [changed ''OWNERS_ALIASES'', changed ''OWNERS''])
          examplePre exampleBlackList)
     = [GetPullRequestChanges ''kubernetes'' ''test-infra'' 7,
        Clone ''kubernetes/test-infra'', CheckoutPullRequest 7,
        ReadFile ''/r/OWNERS_ALIASES'',
        HttpGet ''https://raw.githubusercontent.com/kubernetes/org/master/config/kubernetes/org.yaml'',
        ReadFile ''/r/OWNERS'',
        HttpGet ''https://raw.githubusercontent.com/kubernetes/org/master/config/kubernetes/org.yaml'',
        RemoveLabel ''kubernetes'' ''test-infra'' 7 ''do-not-merge/invalid-owners-file'',
        CleanRepo]
   \<and> length (filter (\<lambda>c. c = HttpGet ''https://raw.githubusercontent.com/kubernetes/org/master/config/kubernetes/org.yaml'')
         (snd (handle (exampleWorld ''aliases'' [changed ''OWNERS_ALIASES'', changed ''OWNERS''])
                 examplePre exampleBlackList))) = 2"
  by code_simp

end
